theory Spec2Isabelle
  imports Complex_Main
begin

section \<open>Ingestion: text blocks and the chunker (ingest.py)\<close>

text \<open>
  A \<open>DataBlock\<close> is a piece of extracted text with the page it was found on and its
  bounding box. The coordinates are floats in the source; no arithmetic is done on them
  in the code modelled here, so they are carried as reals. The field \<open>text\<close> of the
  source is called \<open>text_str\<close>.
\<close>

type_synonym bbox = "real \<times> real \<times> real \<times> real"

record DataBlock =
  text_str :: string
  page :: int
  bbox :: bbox

text \<open>
  Python's slice \<open>xs[i:j]\<close>: a negative bound counts from the end of the list, and
  each bound is clamped to the range \<open>0 .. len(xs)\<close>; the slice is empty when the
  lower bound is not below the upper one.
\<close>

definition slice_bound :: "int \<Rightarrow> int \<Rightarrow> int" where
  "slice_bound n i = (if i < 0 then max (i + n) 0 else min i n)"

definition py_slice :: "'a list \<Rightarrow> int \<Rightarrow> int \<Rightarrow> 'a list" where
  "py_slice xs i j =
     (let n = int (length xs); lo = slice_bound n i; hi = slice_bound n j
      in take (nat (hi - lo)) (drop (nat lo) xs))"

text \<open>
  The body of the \<open>while\<close> loop of \<open>chunk_text_blocks\<close>:
  \<^verbatim>\<open>end = min(start + max_chars, len(text))\<close> and
  \<^verbatim>\<open>start = end - overlap_chars if end < len(text) else end\<close>.
\<close>

definition window_end :: "string \<Rightarrow> int \<Rightarrow> int \<Rightarrow> int" where
  "window_end t max_chars start = min (start + max_chars) (int (length t))"

definition window_next :: "string \<Rightarrow> int \<Rightarrow> int \<Rightarrow> int \<Rightarrow> int" where
  "window_next t max_chars overlap_chars start =
     (let e = window_end t max_chars start
      in if e < int (length t) then e - overlap_chars else e)"

definition make_chunk :: "DataBlock \<Rightarrow> string \<Rightarrow> DataBlock" where
  "make_chunk block chunk_text =
     \<lparr>text_str = chunk_text, page = page block, bbox = bbox block\<rparr>"

text \<open>
  The \<open>while start < len(text)\<close> loop. The parameters are Python integers, and for
  \<open>overlap_chars \<ge> max_chars\<close> the loop does not advance, so the loop is a partial
  function: \<open>None\<close> stands for a run that never returns.
\<close>

partial_function (option) sliding_window ::
  "DataBlock \<Rightarrow> int \<Rightarrow> int \<Rightarrow> int \<Rightarrow> DataBlock list \<Rightarrow> DataBlock list option" where
  "sliding_window block max_chars overlap_chars start chunked_blocks =
     (if start < int (length (text_str block)) then
        sliding_window block max_chars overlap_chars
          (window_next (text_str block) max_chars overlap_chars start)
          (chunked_blocks @
             [make_chunk block
                (py_slice (text_str block) start
                   (window_end (text_str block) max_chars start))])
      else Some chunked_blocks)"

declare sliding_window.simps [code]

text \<open>The \<open>for block in blocks\<close> loop, with the list built so far as accumulator.\<close>

fun chunk_loop ::
  "DataBlock list \<Rightarrow> int \<Rightarrow> int \<Rightarrow> DataBlock list \<Rightarrow> DataBlock list option" where
  "chunk_loop [] max_chars overlap_chars chunked_blocks = Some chunked_blocks"
| "chunk_loop (block # blocks) max_chars overlap_chars chunked_blocks =
     (if int (length (text_str block)) \<le> max_chars then
        chunk_loop blocks max_chars overlap_chars (chunked_blocks @ [block])
      else
        (case sliding_window block max_chars overlap_chars 0 chunked_blocks of
           None \<Rightarrow> None
         | Some chunked_blocks' \<Rightarrow> chunk_loop blocks max_chars overlap_chars chunked_blocks'))"

definition chunk_text_blocks ::
  "DataBlock list \<Rightarrow> int \<Rightarrow> int \<Rightarrow> DataBlock list option" where
  "chunk_text_blocks blocks max_chars overlap_chars =
     chunk_loop blocks max_chars overlap_chars []"

section \<open>The vector store (vector_store.py)\<close>

text \<open>
  Exceptions are values. \<open>ValueError\<close> is what the ChromaDB client raises for a
  collection that does not exist (the source catches exactly this class); any other
  failure of a collaborator (the vector database, the file system, the SQLite file,
  the embedding model, the PDF parser) is an \<open>Unavailable\<close> error with its message.
\<close>

datatype py_error = ValueError | Unavailable string

text \<open>
  One stored record of a ChromaDB collection, as \<open>add_documents\<close> writes it: the id,
  the embedding, the document and the metadata dictionary with its six keys.
\<close>

record metadata =
  meta_page :: int
  meta_bbox_x0 :: real
  meta_bbox_y0 :: real
  meta_bbox_x1 :: real
  meta_bbox_y1 :: real
  meta_text :: string

record chroma_record =
  rec_id :: string
  rec_embedding :: "real list"
  rec_document :: string
  rec_metadata :: metadata

text \<open>
  The persistent client: collections by name, each holding its records in insertion
  order. The client operations follow the ChromaDB version the source is written for
  (the one whose \<open>get_collection\<close> and \<open>delete_collection\<close> raise \<open>ValueError\<close> for a
  missing collection): a collection is keyed by record id, \<open>add\<close> requires as many
  embeddings, documents and metadatas as ids, and a record whose id the collection
  already holds is not inserted again. Other input validation of the library is not
  modelled.
\<close>

type_synonym chroma = "string \<rightharpoonup> chroma_record list"

definition client_get_collection :: "chroma \<Rightarrow> string \<Rightarrow> py_error + chroma_record list" where
  "client_get_collection client name =
     (case client name of None \<Rightarrow> Inl ValueError | Some records \<Rightarrow> Inr records)"

definition client_delete_collection :: "chroma \<Rightarrow> string \<Rightarrow> py_error + chroma" where
  "client_delete_collection client name =
     (case client name of None \<Rightarrow> Inl ValueError | Some records \<Rightarrow> Inr (client(name := None)))"

definition client_create_collection :: "chroma \<Rightarrow> string \<Rightarrow> py_error + chroma" where
  "client_create_collection client name =
     (case client name of None \<Rightarrow> Inr (client(name \<mapsto> [])) | Some records \<Rightarrow> Inl ValueError)"

definition collection_add ::
  "chroma \<Rightarrow> string \<Rightarrow> string list \<Rightarrow> real list list \<Rightarrow> string list \<Rightarrow> metadata list
     \<Rightarrow> py_error + chroma" where
  "collection_add client name ids embeddings documents metadatas =
     (if length embeddings \<noteq> length ids \<or> length documents \<noteq> length ids \<or>
         length metadatas \<noteq> length ids
      then Inl ValueError
      else
        (case client name of
           None \<Rightarrow> Inl ValueError
         | Some records \<Rightarrow>
             Inr (client(name \<mapsto> records @
               filter (\<lambda>r. rec_id r \<notin> set (map rec_id records))
                 (map (\<lambda>i. \<lparr>rec_id = ids ! i, rec_embedding = embeddings ! i,
                             rec_document = documents ! i, rec_metadata = metadatas ! i\<rparr>)
                    [0..<length ids])))))"

text \<open>
  The nearest-neighbour search of ChromaDB is outside the repository. It is a parameter:
  given the query embedding and the stored embeddings in storage order, it yields the
  positions of the stored records in rank order, each with its distance. A collection
  query keeps the positions that exist and returns at most \<open>n_results\<close> of them.
\<close>

type_synonym ranker = "real list \<Rightarrow> real list list \<Rightarrow> (nat \<times> real) list"

definition collection_query ::
  "ranker \<Rightarrow> chroma_record list \<Rightarrow> real list \<Rightarrow> int \<Rightarrow> (chroma_record \<times> real) list" where
  "collection_query rank records query_embedding n_results =
     map (\<lambda>(i, d). (records ! i, d))
       (take (nat n_results)
          (filter (\<lambda>(i, d). i < length records)
             (rank query_embedding (map rec_embedding records))))"

definition collection_name :: "string \<Rightarrow> string" where
  "collection_name session_id = ''session_'' @ session_id"

definition create_collection :: "chroma \<Rightarrow> string \<Rightarrow> py_error + chroma" where
  "create_collection client session_id =
     (case client_delete_collection client (collection_name session_id) of
        Inl ValueError \<Rightarrow> client_create_collection client (collection_name session_id)
      | Inl e \<Rightarrow> Inl e
      | Inr client' \<Rightarrow> client_create_collection client' (collection_name session_id))"

definition get_collection :: "chroma \<Rightarrow> string \<Rightarrow> py_error + chroma_record list option" where
  "get_collection client session_id =
     (case client_get_collection client (collection_name session_id) of
        Inl ValueError \<Rightarrow> Inr None
      | Inl e \<Rightarrow> Inl e
      | Inr records \<Rightarrow> Inr (Some records))"

text \<open>The decimal digits of a number, for the record ids \<open>block_0\<close>, \<open>block_1\<close>, ...\<close>

definition digit_char :: "nat \<Rightarrow> char" where
  "digit_char n = ''0123456789'' ! (n mod 10)"

fun str_of_nat :: "nat \<Rightarrow> string" where
  "str_of_nat n = (if n < 10 then [digit_char n] else str_of_nat (n div 10) @ [digit_char n])"

declare str_of_nat.simps [simp del]

definition block_metadata :: "DataBlock \<Rightarrow> metadata" where
  "block_metadata block =
     (case bbox block of (x0, y0, x1, y1) \<Rightarrow>
        \<lparr>meta_page = page block, meta_bbox_x0 = x0, meta_bbox_y0 = y0,
         meta_bbox_x1 = x1, meta_bbox_y1 = y1,
         meta_text = py_slice (text_str block) 0 500\<rparr>)"

definition add_documents ::
  "chroma \<Rightarrow> string \<Rightarrow> DataBlock list \<Rightarrow> real list list \<Rightarrow> py_error + chroma" where
  "add_documents client session_id blocks embeddings =
     (case get_collection client session_id of
        Inl e \<Rightarrow> Inl e
      | Inr collection \<Rightarrow>
          (case (case collection of
                   None \<Rightarrow> create_collection client session_id
                 | Some records \<Rightarrow> Inr client) of
             Inl e \<Rightarrow> Inl e
           | Inr client' \<Rightarrow>
               collection_add client' (collection_name session_id)
                 (map (\<lambda>i. ''block_'' @ str_of_nat i) [0..<length blocks])
                 embeddings
                 (map text_str blocks)
                 (map block_metadata blocks)))"

text \<open>
  The records that \<open>add_documents\<close> hands to the collection: one per block, made of the
  lists \<open>ids\<close>, \<open>embeddings\<close>, \<open>documents\<close> and \<open>metadatas\<close> at the same position.
\<close>

definition new_records :: "DataBlock list \<Rightarrow> real list list \<Rightarrow> chroma_record list" where
  "new_records blocks embeddings =
     map (\<lambda>i. \<lparr>rec_id = ''block_'' @ str_of_nat i, rec_embedding = embeddings ! i,
                rec_document = text_str (blocks ! i),
                rec_metadata = block_metadata (blocks ! i)\<rparr>) [0..<length blocks]"

record query_result =
  res_id :: int
  res_text :: string
  res_page :: int
  res_bbox :: "real list"
  res_distance :: real

definition query ::
  "ranker \<Rightarrow> chroma \<Rightarrow> string \<Rightarrow> real list \<Rightarrow> int \<Rightarrow> py_error + query_result list" where
  "query rank client session_id query_embedding top_k =
     (case get_collection client session_id of
        Inl e \<Rightarrow> Inl e
      | Inr None \<Rightarrow> Inr []
      | Inr (Some records) \<Rightarrow>
          (let results = collection_query rank records query_embedding top_k
           in Inr (map (\<lambda>i. case results ! i of (r, d) \<Rightarrow>
                \<lparr>res_id = int i + 1,
                 res_text = rec_document r,
                 res_page = meta_page (rec_metadata r),
                 res_bbox = [meta_bbox_x0 (rec_metadata r), meta_bbox_y0 (rec_metadata r),
                             meta_bbox_x1 (rec_metadata r), meta_bbox_y1 (rec_metadata r)],
                 res_distance = d\<rparr>) [0..<length results])))"

definition delete_collection :: "chroma \<Rightarrow> string \<Rightarrow> py_error + (bool \<times> chroma)" where
  "delete_collection client session_id =
     (case client_delete_collection client (collection_name session_id) of
        Inl ValueError \<Rightarrow> Inr (False, client)
      | Inl e \<Rightarrow> Inl e
      | Inr client' \<Rightarrow> Inr (True, client'))"

section \<open>The session registry and the expiry sweeper (cleanup.py)\<close>

text \<open>
  The clock is read as microseconds since 1970-01-01 00:00:00 UTC. SQLite's
  \<open>CURRENT_TIMESTAMP\<close> and Python's \<open>datetime.utcnow().isoformat()\<close> both print the
  UTC calendar date and time of a clock reading; \<open>civil_from_days\<close> is the proleptic
  Gregorian calendar they share (days since 1970-01-01 to year, month, day). The
  four-digit year covers the years 0 to 9999.
\<close>

definition civil_from_days :: "int \<Rightarrow> int \<times> int \<times> int" where
  "civil_from_days days =
     (let z = days + 719468;
          era = z div 146097;
          doe = z - era * 146097;
          yoe = (doe - doe div 1460 + doe div 36524 - doe div 146096) div 365;
          doy = doe - (365 * yoe + yoe div 4 - yoe div 100);
          mp = (5 * doy + 2) div 153;
          d = doy - (153 * mp + 2) div 5 + 1;
          m = (if mp < 10 then mp + 3 else mp - 9);
          y = yoe + era * 400 + (if m \<le> 2 then 1 else 0)
      in (y, m, d))"

definition two_digits :: "int \<Rightarrow> string" where
  "two_digits n = [digit_char (nat n div 10), digit_char (nat n)]"

definition four_digits :: "int \<Rightarrow> string" where
  "four_digits n = [digit_char (nat n div 1000), digit_char (nat n div 100),
                    digit_char (nat n div 10), digit_char (nat n)]"

definition six_digits :: "int \<Rightarrow> string" where
  "six_digits n = [digit_char (nat n div 100000), digit_char (nat n div 10000),
                   digit_char (nat n div 1000), digit_char (nat n div 100),
                   digit_char (nat n div 10), digit_char (nat n)]"

definition date_str :: "int \<Rightarrow> string" where
  "date_str t =
     (case civil_from_days (t div 86400000000) of (y, m, d) \<Rightarrow>
        four_digits y @ ''-'' @ two_digits m @ ''-'' @ two_digits d)"

definition time_str :: "int \<Rightarrow> string" where
  "time_str t =
     (let sod = (t div 1000000) mod 86400
      in two_digits (sod div 3600) @ '':'' @ two_digits (sod div 60 mod 60) @ '':'' @
         two_digits (sod mod 60))"

text \<open>\<open>CURRENT_TIMESTAMP\<close> of SQLite: \<^verbatim>\<open>YYYY-MM-DD HH:MM:SS\<close>.\<close>

definition CURRENT_TIMESTAMP :: "int \<Rightarrow> string" where
  "CURRENT_TIMESTAMP now = date_str now @ '' '' @ time_str now"

text \<open>
  \<open>datetime.isoformat()\<close> of Python: \<^verbatim>\<open>YYYY-MM-DDTHH:MM:SS\<close>, followed by
  \<^verbatim>\<open>.ffffff\<close> when the microsecond is not zero.
\<close>

definition isoformat :: "int \<Rightarrow> string" where
  "isoformat t =
     date_str t @ ''T'' @ time_str t @
     (if t mod 1000000 = 0 then [] else ''.'' @ six_digits (t mod 1000000))"

text \<open>
  The comparison \<open><\<close> of SQLite on two TEXT values under the default BINARY collation:
  byte by byte, a proper prefix being smaller. The column \<open>last_accessed\<close> holds what
  \<open>CURRENT_TIMESTAMP\<close> produced, a text, and the bound parameter is a Python string,
  so this is the comparison that \<open>get_expired_sessions\<close> runs.
\<close>

fun sqlite_text_less :: "string \<Rightarrow> string \<Rightarrow> bool" where
  "sqlite_text_less [] [] = False"
| "sqlite_text_less [] (y # ys) = True"
| "sqlite_text_less (x # xs) [] = False"
| "sqlite_text_less (x # xs) (y # ys) =
     (if (of_char x :: nat) < of_char y then True
      else if (of_char y :: nat) < of_char x then False
      else sqlite_text_less xs ys)"

definition SESSION_EXPIRY_MINUTES :: int where
  "SESSION_EXPIRY_MINUTES = 30"

text \<open>A row of the table \<open>sessions\<close>; \<open>session_id\<close> is its primary key.\<close>

record session_row =
  session_id :: string
  created_at :: string
  last_accessed :: string
  pdf_filename :: "string option"

definition register_session ::
  "int \<Rightarrow> session_row list \<Rightarrow> string \<Rightarrow> string option \<Rightarrow> session_row list" where
  "register_session now db sid name =
     filter (\<lambda>r. session_id r \<noteq> sid) db @
     [\<lparr>session_id = sid, created_at = CURRENT_TIMESTAMP now,
       last_accessed = CURRENT_TIMESTAMP now, pdf_filename = name\<rparr>]"

definition update_session_access :: "int \<Rightarrow> session_row list \<Rightarrow> string \<Rightarrow> session_row list" where
  "update_session_access now db sid =
     map (\<lambda>r. if session_id r = sid then r\<lparr>last_accessed := CURRENT_TIMESTAMP now\<rparr> else r) db"

definition get_expired_sessions :: "int \<Rightarrow> session_row list \<Rightarrow> (string \<times> string option) list" where
  "get_expired_sessions now db =
     (let expiry_time = now - SESSION_EXPIRY_MINUTES * 60000000
      in map (\<lambda>r. (session_id r, pdf_filename r))
           (filter (\<lambda>r. sqlite_text_less (last_accessed r) (isoformat expiry_time)) db))"

text \<open>
  The three stores of the service, and what the sweeper printed. A step that talks to a
  collaborator can fail: \<open>fault step sid\<close> is the message of the exception that the
  step raises for session \<open>sid\<close>, or \<open>None\<close> when the collaborator answers.
\<close>

datatype step =
    Write_pdf | Create_collection | Add_documents | Register_session
  | Delete_collection | Unlink_pdf | Delete_row

datatype log_line =
    Deleted_expired_session string
  | Error_deleting_session string py_error
  | Cleaned_up int

record system =
  collections :: chroma
  temp_pdfs :: "string \<rightharpoonup> string"
  sessions :: "session_row list"
  printed :: "log_line list"

definition temp_pdf_path :: "string \<Rightarrow> string" where
  "temp_pdf_path sid = ''temp_pdfs/'' @ sid @ ''.pdf''"

definition delete_row :: "(step \<Rightarrow> string \<Rightarrow> string option) \<Rightarrow> system \<Rightarrow> string \<Rightarrow> py_error option \<times> system" where
  "delete_row fault s sid =
     (case fault Delete_row sid of
        Some msg \<Rightarrow> (Some (Unavailable msg), s)
      | None \<Rightarrow> (None, s\<lparr>sessions := filter (\<lambda>r. session_id r \<noteq> sid) (sessions s)\<rparr>))"

definition delete_session :: "(step \<Rightarrow> string \<Rightarrow> string option) \<Rightarrow> system \<Rightarrow> string \<Rightarrow> py_error option \<times> system" where
  "delete_session fault s sid =
     (case fault Delete_collection sid of
        Some msg \<Rightarrow> (Some (Unavailable msg), s)
      | None \<Rightarrow>
          (case delete_collection (collections s) sid of
             Inl e \<Rightarrow> (Some e, s)
           | Inr (deleted, client') \<Rightarrow>
               (let s1 = s\<lparr>collections := client'\<rparr>
                in case temp_pdfs s1 (temp_pdf_path sid) of
                     None \<Rightarrow> delete_row fault s1 sid
                   | Some pdf \<Rightarrow>
                       (case fault Unlink_pdf sid of
                          Some msg \<Rightarrow> (Some (Unavailable msg), s1)
                        | None \<Rightarrow>
                            delete_row fault
                              (s1\<lparr>temp_pdfs := (temp_pdfs s1)(temp_pdf_path sid := None)\<rparr>)
                              sid))))"

fun cleanup_loop ::
  "(step \<Rightarrow> string \<Rightarrow> string option) \<Rightarrow> (string \<times> string option) list \<Rightarrow> int \<Rightarrow> system
     \<Rightarrow> int \<times> system" where
  "cleanup_loop fault [] count s = (count, s)"
| "cleanup_loop fault (session # expired) count s =
     (case delete_session fault s (fst session) of
        (None, s') \<Rightarrow>
          cleanup_loop fault expired (count + 1)
            (s'\<lparr>printed := printed s' @ [Deleted_expired_session (fst session)]\<rparr>)
      | (Some e, s') \<Rightarrow>
          cleanup_loop fault expired count
            (s'\<lparr>printed := printed s' @ [Error_deleting_session (fst session) e]\<rparr>))"

definition cleanup_expired_sessions ::
  "(step \<Rightarrow> string \<Rightarrow> string option) \<Rightarrow> int \<Rightarrow> system \<Rightarrow> int \<times> system" where
  "cleanup_expired_sessions fault now s =
     (case cleanup_loop fault (get_expired_sessions now (sessions s)) 0 s of
        (count, s') \<Rightarrow>
          (count, if count > 0 then s'\<lparr>printed := printed s' @ [Cleaned_up count]\<rparr> else s'))"

section \<open>The upload endpoint (main.py)\<close>

record PageDimensions =
  width :: real
  height :: real

record upload_file =
  filename :: string
  content_type :: string
  contents :: string

datatype detail =
    No_file_provided
  | Only_PDF_files_are_accepted
  | File_too_large nat
  | File_is_empty
  | Failed_to_save_PDF py_error
  | No_text_content_found
  | Failed_to_process_PDF py_error

datatype http_exception = HTTPException (status_code: nat) (detail: detail)

text \<open>What the \<open>try\<close> block of \<open>upload_pdf\<close> can raise: an \<open>HTTPException\<close> or anything else.\<close>

datatype raised = Http http_exception | Other py_error

record upload_response =
  resp_session_id :: string
  resp_message :: string
  resp_page_count :: nat
  resp_block_count :: nat
  resp_page_dimensions :: "(int \<times> real \<times> real) list"

text \<open>
  What an upload meets outside the repository: the identifier that \<open>uuid4\<close> draws, the
  clock, the outcome of \<open>extract_text_blocks\<close> on the stored file (PyMuPDF reads it),
  the outcome of \<open>get_embeddings\<close> (the sentence-transformer model), and the faults of
  the stores.
\<close>

record env =
  new_session_id :: string
  clock :: int
  extract_text_blocks :: "string \<Rightarrow> py_error + (DataBlock list \<times> (int \<times> PageDimensions) list)"
  get_embeddings :: "string list \<Rightarrow> py_error + real list list"
  fault :: "step \<Rightarrow> string \<Rightarrow> string option"

definition MAX_FILE_SIZE :: nat where
  "MAX_FILE_SIZE = 1 * 1024 * 1024"

text \<open>\<open>str.lower\<close> on the ASCII letters, and \<open>str.endswith\<close>.\<close>

definition lower_char :: "char \<Rightarrow> char" where
  "lower_char c =
     (if 65 \<le> (of_char c :: nat) \<and> (of_char c :: nat) \<le> 90
      then char_of ((of_char c :: nat) + 32) else c)"

definition endswith :: "string \<Rightarrow> string \<Rightarrow> bool" where
  "endswith s suffix =
     (length suffix \<le> length s \<and> drop (length s - length suffix) s = suffix)"

text \<open>
  The \<open>try\<close> block: extraction, the empty-document check, chunking with the default
  parameters, embedding, \<open>create_collection\<close>, \<open>add_documents\<close>, \<open>register_session\<close> and
  the response. It returns what was raised or the response, with the state reached.
\<close>

definition ingest ::
  "env \<Rightarrow> system \<Rightarrow> upload_file \<Rightarrow> string \<Rightarrow> ((raised + upload_response) \<times> system) option" where
  "ingest e s file sid =
     (case extract_text_blocks e (contents file) of
        Inl err \<Rightarrow> Some (Inl (Other err), s)
      | Inr (blocks, page_dims) \<Rightarrow>
          if blocks = [] then Some (Inl (Http (HTTPException 400 No_text_content_found)), s)
          else
            (case chunk_text_blocks blocks 500 50 of
               None \<Rightarrow> None
             | Some chunks \<Rightarrow>
                 (case get_embeddings e (map text_str chunks) of
                    Inl err \<Rightarrow> Some (Inl (Other err), s)
                  | Inr embeddings \<Rightarrow>
                      (case fault e Create_collection sid of
                         Some msg \<Rightarrow> Some (Inl (Other (Unavailable msg)), s)
                       | None \<Rightarrow>
                           (case create_collection (collections s) sid of
                              Inl err \<Rightarrow> Some (Inl (Other err), s)
                            | Inr c1 \<Rightarrow>
                                (case fault e Add_documents sid of
                                   Some msg \<Rightarrow>
                                     Some (Inl (Other (Unavailable msg)), s\<lparr>collections := c1\<rparr>)
                                 | None \<Rightarrow>
                                     (case add_documents c1 sid chunks embeddings of
                                        Inl err \<Rightarrow> Some (Inl (Other err), s\<lparr>collections := c1\<rparr>)
                                      | Inr c2 \<Rightarrow>
                                          (case fault e Register_session sid of
                                             Some msg \<Rightarrow>
                                               Some (Inl (Other (Unavailable msg)),
                                                     s\<lparr>collections := c2\<rparr>)
                                           | None \<Rightarrow>
                                               Some (Inr \<lparr>resp_session_id = sid,
                                                          resp_message = ''PDF processed successfully'',
                                                          resp_page_count = length page_dims,
                                                          resp_block_count = length chunks,
                                                          resp_page_dimensions =
                                                            map (\<lambda>(page_num, dims).
                                                                   (page_num, width dims, height dims))
                                                              (sort_key fst page_dims)\<rparr>,
                                                     s\<lparr>collections := c2,
                                                       sessions := register_session (clock e)
                                                         (sessions s) sid (Some (filename file))\<rparr>)))))))))"

text \<open>
  The endpoint. Its caller sees the response, an \<open>HTTPException\<close>, or another exception:
  the handler of the \<open>try\<close> block removes the temporary file with an unguarded
  \<open>unlink\<close>, and when that fails its exception leaves the handler in place of the
  \<open>HTTPException\<close> 500.
\<close>

definition upload_pdf ::
  "env \<Rightarrow> system \<Rightarrow> upload_file \<Rightarrow> ((raised + upload_response) \<times> system) option" where
  "upload_pdf e s file =
     (if filename file = [] then Some (Inl (Http (HTTPException 400 No_file_provided)), s)
      else if \<not> endswith (map lower_char (filename file)) ''.pdf''
        then Some (Inl (Http (HTTPException 400 Only_PDF_files_are_accepted)), s)
      else if content_type file \<noteq> [] \<and> content_type file \<noteq> ''application/pdf''
        then Some (Inl (Http (HTTPException 400 Only_PDF_files_are_accepted)), s)
      else if length (contents file) > MAX_FILE_SIZE
        then Some (Inl (Http (HTTPException 400 (File_too_large (length (contents file))))), s)
      else if length (contents file) = 0
        then Some (Inl (Http (HTTPException 400 File_is_empty)), s)
      else
        (let sid = new_session_id e; pdf_path = temp_pdf_path sid
         in case fault e Write_pdf sid of
              Some msg \<Rightarrow>
                Some (Inl (Http (HTTPException 500 (Failed_to_save_PDF (Unavailable msg)))), s)
            | None \<Rightarrow>
                (case ingest e (s\<lparr>temp_pdfs := (temp_pdfs s)(pdf_path \<mapsto> contents file)\<rparr>) file sid of
                   None \<Rightarrow> None
                 | Some (Inr response, s') \<Rightarrow> Some (Inr response, s')
                 | Some (Inl (Http err), s') \<Rightarrow> Some (Inl (Http err), s')
                 | Some (Inl (Other err), s') \<Rightarrow>
                     (case temp_pdfs s' pdf_path of
                        None \<Rightarrow>
                          Some (Inl (Http (HTTPException 500 (Failed_to_process_PDF err))), s')
                      | Some pdf \<Rightarrow>
                          (case fault e Unlink_pdf sid of
                             Some msg \<Rightarrow> Some (Inl (Other (Unavailable msg)), s')
                           | None \<Rightarrow>
                               Some (Inl (Http (HTTPException 500 (Failed_to_process_PDF err))),
                                     s'\<lparr>temp_pdfs := (temp_pdfs s')(pdf_path := None)\<rparr>))))))"

section \<open>Properties of the chunker\<close>

lemma window_next_advances:
  "overlap_chars < max_chars \<Longrightarrow> start < int (length t) \<Longrightarrow>
   start < window_next t max_chars overlap_chars start"
  by (auto simp: window_next_def window_end_def Let_def min_def)

lemma sliding_window_done:
  "\<not> start < int (length (text_str b)) \<Longrightarrow> sliding_window b m ov start acc = Some acc"
  by (subst sliding_window.simps) simp

lemma sliding_window_step:
  "start < int (length (text_str b)) \<Longrightarrow>
   sliding_window b m ov start acc =
   sliding_window b m ov (window_next (text_str b) m ov start)
     (acc @ [make_chunk b (py_slice (text_str b) start (window_end (text_str b) m start))])"
  by (subst sliding_window.simps) simp

lemma sliding_window_total:
  assumes "ov < m"
  shows "\<exists>ys. \<forall>acc. sliding_window b m ov s acc = Some (acc @ ys)"
proof (induction "nat (int (length (text_str b)) - s)" arbitrary: s rule: less_induct)
  case less
  show ?case
  proof (cases "s < int (length (text_str b))")
    case False
    then have "\<forall>acc. sliding_window b m ov s acc = Some (acc @ [])"
      by (simp add: sliding_window_done)
    then show ?thesis by blast
  next
    case True
    let ?s' = "window_next (text_str b) m ov s"
    let ?c = "make_chunk b (py_slice (text_str b) s (window_end (text_str b) m s))"
    have "s < ?s'" using assms True by (rule window_next_advances)
    then have "nat (int (length (text_str b)) - ?s') < nat (int (length (text_str b)) - s)"
      using True by linarith
    from less[OF this] obtain ys where
      ys: "\<forall>acc. sliding_window b m ov ?s' acc = Some (acc @ ys)" by blast
    have "\<forall>acc. sliding_window b m ov s acc = Some (acc @ (?c # ys))"
      using True ys by (simp add: sliding_window_step)
    then show ?thesis by blast
  qed
qed

lemma window_chunk:
  assumes "0 \<le> s" "s < int (length t)" "0 \<le> m"
  shows "py_slice t s (window_end t m s) = take (nat m) (drop (nat s) t)"
proof (cases "s + m \<le> int (length t)")
  case True
  then have "window_end t m s = s + m" by (simp add: window_end_def)
  then show ?thesis using assms True
    by (simp add: py_slice_def slice_bound_def Let_def)
next
  case False
  then have e: "window_end t m s = int (length t)" by (simp add: window_end_def)
  have "length (drop (nat s) t) \<le> nat m" using False assms by (simp; linarith)
  then have "take (nat m) (drop (nat s) t) = drop (nat s) t" by simp
  moreover have "take (nat (int (length t) - s)) (drop (nat s) t) = drop (nat s) t"
    using assms by simp
  ultimately show ?thesis using assms e
    by (simp add: py_slice_def slice_bound_def Let_def)
qed

lemma sliding_window_bounded:
  assumes "0 \<le> m" "ov < m"
  shows "0 \<le> s \<Longrightarrow> \<exists>ys. (\<forall>acc. sliding_window b m ov s acc = Some (acc @ ys)) \<and>
           (\<forall>c\<in>set ys. int (length (text_str c)) \<le> m \<and> page c = page b \<and> bbox c = bbox b)"
proof (induction "nat (int (length (text_str b)) - s)" arbitrary: s rule: less_induct)
  case less
  show ?case
  proof (cases "s < int (length (text_str b))")
    case False
    then have "\<forall>acc. sliding_window b m ov s acc = Some (acc @ [])"
      by (simp add: sliding_window_done)
    then show ?thesis by fastforce
  next
    case True
    let ?s' = "window_next (text_str b) m ov s"
    let ?c = "make_chunk b (py_slice (text_str b) s (window_end (text_str b) m s))"
    have adv: "s < ?s'" using assms(2) True by (rule window_next_advances)
    then have "nat (int (length (text_str b)) - ?s') < nat (int (length (text_str b)) - s)"
      using True by linarith
    moreover have "0 \<le> ?s'" using adv less.prems by linarith
    ultimately obtain ys where
      ys: "\<forall>acc. sliding_window b m ov ?s' acc = Some (acc @ ys)"
      and bd: "\<forall>c\<in>set ys. int (length (text_str c)) \<le> m \<and> page c = page b \<and> bbox c = bbox b"
      using less.hyps by blast
    have "?c = make_chunk b (take (nat m) (drop (nat s) (text_str b)))"
      using window_chunk[OF less.prems True assms(1)] by simp
    then have c: "int (length (text_str ?c)) \<le> m \<and> page ?c = page b \<and> bbox ?c = bbox b"
      using assms(1) by (simp add: make_chunk_def)
    have "\<forall>acc. sliding_window b m ov s acc = Some (acc @ (?c # ys))"
      using True ys by (simp add: sliding_window_step)
    then show ?thesis using bd c by (intro exI[of _ "?c # ys"]) simp
  qed
qed

lemma sliding_window_shape:
  assumes "0 \<le> ov" "ov < m"
  shows "0 \<le> s \<Longrightarrow> s + ov < int (length (text_str b)) \<Longrightarrow>
         \<exists>n. (\<forall>acc. sliding_window b m ov s acc =
                 Some (acc @ map (\<lambda>k. make_chunk b
                     (take (nat m) (drop (nat s + k * nat (m - ov)) (text_str b)))) [0..<Suc n])) \<and>
             int (length (text_str b)) \<le> s + int n * (m - ov) + m \<and>
             (\<forall>k<n. s + int k * (m - ov) + m < int (length (text_str b)))"
proof (induction "nat (int (length (text_str b)) - s)" arbitrary: s rule: less_induct)
  case less
  let ?t = "text_str b"
  let ?L = "int (length ?t)"
  let ?s' = "window_next ?t m ov s"
  let ?f = "\<lambda>s k. make_chunk b (take (nat m) (drop (nat s + k * nat (m - ov)) ?t))"
  have sL: "s < ?L" using less.prems assms by linarith
  have m0: "0 \<le> m" using assms by linarith
  have chunk: "make_chunk b (py_slice ?t s (window_end ?t m s)) = ?f s 0"
    using window_chunk[OF less.prems(1) sL m0] by simp
  show ?case
  proof (cases "s + m < ?L")
    case False
    then have "?s' = ?L" by (simp add: window_next_def window_end_def Let_def)
    then have "\<forall>acc. sliding_window b m ov s acc = Some (acc @ [?f s 0])"
      using sL chunk by (simp add: sliding_window_step sliding_window_done)
    then show ?thesis using False by (intro exI[of _ 0]) simp
  next
    case True
    then have s': "?s' = s + (m - ov)" by (simp add: window_next_def window_end_def Let_def)
    have "nat (?L - ?s') < nat (?L - s)" using s' assms sL by linarith
    moreover have "0 \<le> ?s'" using s' assms less.prems by linarith
    moreover have "?s' + ov < ?L" using s' True by linarith
    ultimately obtain n where
      run: "\<forall>acc. sliding_window b m ov ?s' acc = Some (acc @ map (?f ?s') [0..<Suc n])"
      and last: "?L \<le> ?s' + int n * (m - ov) + m"
      and before: "\<forall>k<n. ?s' + int k * (m - ov) + m < ?L"
      using less.hyps by blast
    have shift: "?f ?s' k = ?f s (Suc k)" for k
    proof -
      have "nat ?s' = nat s + nat (m - ov)" using s' assms less.prems by (simp add: nat_add_distrib)
      then show ?thesis by (simp add: ac_simps)
    qed
    have "map (?f s) [0..<Suc (Suc n)] = ?f s 0 # map (?f ?s') [0..<Suc n]"
      unfolding shift by (simp only: map_Suc_upt[symmetric] upt_conv_Cons[of 0] list.map) simp
    then have "\<forall>acc. sliding_window b m ov s acc = Some (acc @ map (?f s) [0..<Suc (Suc n)])"
      using sL chunk run by (simp add: sliding_window_step)
    moreover have "?L \<le> s + int (Suc n) * (m - ov) + m"
      using last s' by (simp add: algebra_simps)
    moreover have "\<forall>k<Suc n. s + int k * (m - ov) + m < ?L"
    proof (intro allI impI)
      fix k assume "k < Suc n"
      show "s + int k * (m - ov) + m < ?L"
      proof (cases k)
        case 0
        then show ?thesis using True by simp
      next
        case (Suc j)
        then have "j < n" using \<open>k < Suc n\<close> by simp
        then have "?s' + int j * (m - ov) + m < ?L" using before by blast
        then show ?thesis using Suc s' by (simp add: algebra_simps)
      qed
    qed
    ultimately show ?thesis by blast
  qed
qed

lemma chunk_single_small:
  "int (length (text_str b)) \<le> m \<Longrightarrow> chunk_text_blocks [b] m ov = Some [b]"
  by (simp add: chunk_text_blocks_def)

lemma chunk_single_large:
  "\<not> int (length (text_str b)) \<le> m \<Longrightarrow>
   chunk_text_blocks [b] m ov = sliding_window b m ov 0 []"
  by (simp add: chunk_text_blocks_def split: option.splits)

lemma chunk_loop_concat:
  assumes "ov < m"
  shows "\<exists>per. list_all2 (\<lambda>b p. chunk_text_blocks [b] m ov = Some p) blocks per \<and>
               (\<forall>acc. chunk_loop blocks m ov acc = Some (acc @ concat per))"
proof (induction blocks)
  case Nil
  then show ?case by simp
next
  case (Cons b bs)
  then obtain per where
    per: "list_all2 (\<lambda>b p. chunk_text_blocks [b] m ov = Some p) bs per"
    and run: "\<forall>acc. chunk_loop bs m ov acc = Some (acc @ concat per)" by blast
  show ?case
  proof (cases "int (length (text_str b)) \<le> m")
    case True
    then have "chunk_text_blocks [b] m ov = Some [b]" by (rule chunk_single_small)
    then have "list_all2 (\<lambda>b p. chunk_text_blocks [b] m ov = Some p) (b # bs) ([b] # per)"
      using per by simp
    moreover have "\<forall>acc. chunk_loop (b # bs) m ov acc = Some (acc @ concat ([b] # per))"
      using True run by simp
    ultimately show ?thesis by blast
  next
    case False
    from sliding_window_total[OF assms] obtain ys where
      ys: "\<forall>acc. sliding_window b m ov 0 acc = Some (acc @ ys)" by blast
    then have "sliding_window b m ov 0 [] = Some ys" by (metis append_Nil)
    then have "chunk_text_blocks [b] m ov = Some ys"
      using False by (simp add: chunk_single_large)
    then have "list_all2 (\<lambda>b p. chunk_text_blocks [b] m ov = Some p) (b # bs) (ys # per)"
      using per by simp
    moreover have "\<forall>acc. chunk_loop (b # bs) m ov acc = Some (acc @ concat (ys # per))"
      using False run ys by simp
    ultimately show ?thesis by blast
  qed
qed

lemma chunk_text_blocks_concat:
  assumes "ov < m"
  shows "\<exists>per. list_all2 (\<lambda>b p. chunk_text_blocks [b] m ov = Some p) blocks per \<and>
               chunk_text_blocks blocks m ov = Some (concat per)"
proof -
  from chunk_loop_concat[OF assms] obtain per where
    "list_all2 (\<lambda>b p. chunk_text_blocks [b] m ov = Some p) blocks per"
    "\<forall>acc. chunk_loop blocks m ov acc = Some (acc @ concat per)" by blast
  then show ?thesis unfolding chunk_text_blocks_def by (metis append_Nil)
qed

lemma chunk_text_blocks_piece:
  assumes "ov < m" "b \<in> set blocks"
  shows "\<exists>pre p post. chunk_text_blocks [b] m ov = Some p \<and>
           chunk_text_blocks blocks m ov = Some (pre @ p @ post)"
proof -
  from chunk_text_blocks_concat[OF assms(1)] obtain per where
    per: "list_all2 (\<lambda>b p. chunk_text_blocks [b] m ov = Some p) blocks per"
    and out: "chunk_text_blocks blocks m ov = Some (concat per)" by blast
  from assms(2) obtain i where i: "i < length blocks" "blocks ! i = b"
    by (auto simp: in_set_conv_nth)
  have len: "length per = length blocks" using per by (simp add: list_all2_lengthD)
  have p: "chunk_text_blocks [b] m ov = Some (per ! i)"
    using per i by (auto simp: list_all2_conv_all_nth)
  have "per = take i per @ (per ! i) # drop (Suc i) per"
    using i len by (simp add: id_take_nth_drop)
  then have "concat per = concat (take i per) @ per ! i @ concat (drop (Suc i) per)"
    by (metis concat.simps(2) concat_append)
  then show ?thesis using p out by auto
qed

lemma make_chunk_eq:
  "make_chunk b s = \<lparr>text_str = s, page = page b, bbox = bbox b\<rparr>"
  by (simp add: make_chunk_def)

lemma large_block_chunks:
  assumes "0 \<le> ov" "ov < m" "m < int (length (text_str b))"
  shows "\<exists>n. chunk_text_blocks [b] m ov =
               Some (map (\<lambda>k. make_chunk b
                  (take (nat m) (drop (k * nat (m - ov)) (text_str b)))) [0..<Suc n]) \<and>
             (\<forall>k<n. k * nat (m - ov) + nat m < length (text_str b)) \<and>
             n * nat (m - ov) < length (text_str b) \<and>
             length (text_str b) \<le> n * nat (m - ov) + nat m"
proof -
  have "(0::int) \<le> 0" "0 + ov < int (length (text_str b))" using assms by simp_all
  from sliding_window_shape[OF assms(1,2) this] obtain n where
    run: "\<forall>acc. sliding_window b m ov 0 acc =
            Some (acc @ map (\<lambda>k. make_chunk b
               (take (nat m) (drop (nat 0 + k * nat (m - ov)) (text_str b)))) [0..<Suc n])"
    and last: "int (length (text_str b)) \<le> 0 + int n * (m - ov) + m"
    and before: "\<forall>k<n. 0 + int k * (m - ov) + m < int (length (text_str b))" by blast
  have conv: "int (k * nat (m - ov) + nat m) = int k * (m - ov) + m" for k
    using assms by simp
  have "sliding_window b m ov 0 [] =
          Some (map (\<lambda>k. make_chunk b
             (take (nat m) (drop (k * nat (m - ov)) (text_str b)))) [0..<Suc n])"
    using run by (metis (no_types, lifting) append_Nil add_0 nat_0 map_eq_conv)
  then have A: "chunk_text_blocks [b] m ov =
          Some (map (\<lambda>k. make_chunk b
             (take (nat m) (drop (k * nat (m - ov)) (text_str b)))) [0..<Suc n])"
    using assms(3) by (simp add: chunk_single_large)
  have B: "\<forall>k<n. k * nat (m - ov) + nat m < length (text_str b)"
  proof (intro allI impI)
    fix k assume "k < n"
    then have "int k * (m - ov) + m < int (length (text_str b))" using before by simp
    then have "int (k * nat (m - ov) + nat m) < int (length (text_str b))" by (simp only: conv)
    then show "k * nat (m - ov) + nat m < length (text_str b)" by linarith
  qed
  have "int (length (text_str b)) \<le> int (n * nat (m - ov) + nat m)"
    using last by (simp only: conv)
  then have C: "length (text_str b) \<le> n * nat (m - ov) + nat m" by linarith
  have D: "n * nat (m - ov) < length (text_str b)"
  proof (cases n)
    case 0
    then show ?thesis using assms by auto
  next
    case (Suc j)
    then have "j * nat (m - ov) + nat m < length (text_str b)" using B by simp
    moreover have "nat (m - ov) \<le> nat m" using assms by simp
    ultimately show ?thesis using Suc by simp
  qed
  from A B C D show ?thesis by blast
qed

lemma chunk_overlap:
  fixes t :: "'a list"
  assumes "ov \<le> m" "k * (m - ov) + m < length t"
  shows "drop (m - ov) (take m (drop (k * (m - ov)) t)) =
           take ov (take m (drop (Suc k * (m - ov)) t)) \<and>
         length (take ov (take m (drop (Suc k * (m - ov)) t))) = ov"
proof -
  have "drop (m - ov) (take m (drop (k * (m - ov)) t)) =
        take (m - (m - ov)) (drop (m - ov) (drop (k * (m - ov)) t))"
    by (simp add: drop_take)
  also have "\<dots> = take ov (drop (Suc k * (m - ov)) t)"
    using assms(1) by (simp add: add.commute)
  also have "\<dots> = take ov (take m (drop (Suc k * (m - ov)) t))"
    using assms(1) by (simp add: min_absorb1)
  finally show ?thesis using assms by simp
qed

lemma take_window:
  "take (min (a + M) (length t) - a) (drop a t) = take M (drop a t)"
proof (cases "a + M \<le> length t")
  case True
  then show ?thesis by (simp add: min_absorb1)
next
  case False
  then have "min (a + M) (length t) = length t" by simp
  moreover have "take (length t - a) (drop a t) = drop a t" by simp
  moreover have "take M (drop a t) = drop a t" using False by simp
  ultimately show ?thesis by simp
qed

lemma block_windows:
  assumes "0 \<le> ov" "ov < m"
  shows "\<exists>ws. chunk_text_blocks [b] m ov =
                 Some (map (\<lambda>w. make_chunk b
                    (take (snd w - fst w) (drop (fst w) (text_str b)))) ws) \<and>
              sorted_wrt (\<lambda>w w'. fst w < fst w') ws \<and>
              (\<forall>p<length (text_str b). \<exists>w\<in>set ws. fst w \<le> p \<and> p < snd w) \<and>
              (\<forall>w\<in>set ws. snd w \<le> length (text_str b))"
proof (cases "int (length (text_str b)) \<le> m")
  case True
  let ?ws = "[(0::nat, length (text_str b))]"
  have "make_chunk b (text_str b) = b" by (simp add: make_chunk_def)
  then have "chunk_text_blocks [b] m ov =
          Some (map (\<lambda>w. make_chunk b (take (snd w - fst w) (drop (fst w) (text_str b)))) ?ws)"
    using True by (simp add: chunk_single_small)
  moreover have "sorted_wrt (\<lambda>w w'. fst w < fst w') ?ws" by simp
  moreover have "\<forall>p<length (text_str b). \<exists>w\<in>set ?ws. fst w \<le> p \<and> p < snd w" by simp
  moreover have "\<forall>w\<in>set ?ws. snd w \<le> length (text_str b)" by simp
  ultimately show ?thesis by blast
next
  case False
  let ?t = "text_str b"
  let ?M = "nat m"
  let ?S = "nat (m - ov)"
  have S: "0 < ?S" "?S \<le> ?M" using assms by simp_all
  from False have "m < int (length ?t)" by simp
  from large_block_chunks[OF assms this] obtain n where
    run: "chunk_text_blocks [b] m ov =
            Some (map (\<lambda>k. make_chunk b (take ?M (drop (k * ?S) ?t))) [0..<Suc n])"
    and last: "length ?t \<le> n * ?S + ?M" by blast
  let ?ws = "map (\<lambda>k. (k * ?S, min (k * ?S + ?M) (length ?t))) [0..<Suc n]"
  have "map (\<lambda>w. make_chunk b (take (snd w - fst w) (drop (fst w) ?t))) ?ws =
        map (\<lambda>k. make_chunk b (take ?M (drop (k * ?S) ?t))) [0..<Suc n]"
    by (simp add: take_window o_def del: upt_Suc)
  with run have A: "chunk_text_blocks [b] m ov =
      Some (map (\<lambda>w. make_chunk b (take (snd w - fst w) (drop (fst w) ?t))) ?ws)" by simp
  have B: "sorted_wrt (\<lambda>w w'. fst w < fst w') ?ws"
    using S(1) by (simp add: sorted_wrt_iff_nth_less del: upt_Suc)
  have C: "\<forall>p<length ?t. \<exists>w\<in>set ?ws. fst w \<le> p \<and> p < snd w"
  proof (intro allI impI)
    fix p assume p: "p < length ?t"
    define k where "k = min (p div ?S) n"
    have kn: "k < Suc n" by (simp add: k_def)
    have lo: "k * ?S \<le> p"
    proof -
      have "k * ?S \<le> (p div ?S) * ?S" by (simp add: k_def)
      also have "\<dots> \<le> p" by simp
      finally show ?thesis .
    qed
    have hi: "p < k * ?S + ?M"
    proof (cases "p div ?S \<le> n")
      case True
      then have k: "k = p div ?S" by (simp add: k_def)
      have "p < (p div ?S) * ?S + ?S"
        using S(1) by (metis dividend_less_div_times add.commute mult.commute)
      then have "p < (p div ?S) * ?S + ?M" using S(2) by linarith
      then show ?thesis by (simp only: k)
    next
      case False
      then have k: "k = n" by (simp add: k_def)
      have "p < n * ?S + ?M" using last p by linarith
      then show ?thesis by (simp only: k)
    qed
    have "(k * ?S, min (k * ?S + ?M) (length ?t)) \<in> set ?ws"
      using kn by (auto simp del: upt_Suc)
    moreover have "p < min (k * ?S + ?M) (length ?t)" using hi p by simp
    ultimately show "\<exists>w\<in>set ?ws. fst w \<le> p \<and> p < snd w" using lo by force
  qed
  have D: "\<forall>w\<in>set ?ws. snd w \<le> length ?t" by (auto simp del: upt_Suc)
  from A B C D show ?thesis by blast
qed

lemma windows_exist:
  assumes "0 \<le> ov" "ov < m"
  shows "\<exists>wss. list_all2 (\<lambda>b ws.
            chunk_text_blocks [b] m ov =
              Some (map (\<lambda>w. make_chunk b
                 (take (snd w - fst w) (drop (fst w) (text_str b)))) ws) \<and>
            sorted_wrt (\<lambda>w w'. fst w < fst w') ws \<and>
            (\<forall>p<length (text_str b). \<exists>w\<in>set ws. fst w \<le> p \<and> p < snd w) \<and>
            (\<forall>w\<in>set ws. snd w \<le> length (text_str b))) blocks wss"
proof (induction blocks)
  case Nil
  then show ?case by simp
next
  case (Cons b bs)
  then obtain wss where "list_all2 (\<lambda>b ws.
            chunk_text_blocks [b] m ov =
              Some (map (\<lambda>w. make_chunk b
                 (take (snd w - fst w) (drop (fst w) (text_str b)))) ws) \<and>
            sorted_wrt (\<lambda>w w'. fst w < fst w') ws \<and>
            (\<forall>p<length (text_str b). \<exists>w\<in>set ws. fst w \<le> p \<and> p < snd w) \<and>
            (\<forall>w\<in>set ws. snd w \<le> length (text_str b))) bs wss" by blast
  moreover from block_windows[OF assms, of b] obtain ws where
    "chunk_text_blocks [b] m ov =
              Some (map (\<lambda>w. make_chunk b
                 (take (snd w - fst w) (drop (fst w) (text_str b)))) ws) \<and>
            sorted_wrt (\<lambda>w w'. fst w < fst w') ws \<and>
            (\<forall>p<length (text_str b). \<exists>w\<in>set ws. fst w \<le> p \<and> p < snd w) \<and>
            (\<forall>w\<in>set ws. snd w \<le> length (text_str b))" by blast
  ultimately show ?case by (intro exI[of _ "ws # wss"]) simp
qed

section \<open>Claims about the chunker\<close>

text \<open>
  Claim C6, as amended. For every block list and parameters with
  \<open>0 \<le> max_chars\<close> and \<open>overlap_chars < max_chars\<close>, \<open>chunk_text_blocks\<close> returns, every
  chunk it returns has text length at most \<open>max_chars\<close>, and every input block whose text
  length is at most \<open>max_chars\<close> is in the output as it was given. (For a negative
  \<open>max_chars\<close> no chunk can be that short; see the counterexample.)
\<close>

theorem chunk_text_blocks_bounded:
  assumes "0 \<le> max_chars" "overlap_chars < max_chars"
  shows "\<exists>chunks. chunk_text_blocks blocks max_chars overlap_chars = Some chunks \<and>
           (\<forall>c\<in>set chunks. int (length (text_str c)) \<le> max_chars) \<and>
           (\<forall>b\<in>set blocks. int (length (text_str b)) \<le> max_chars \<longrightarrow> b \<in> set chunks)"
proof -
  from chunk_text_blocks_concat[OF assms(2)] obtain per where
    per: "list_all2 (\<lambda>b p. chunk_text_blocks [b] max_chars overlap_chars = Some p) blocks per"
    and out: "chunk_text_blocks blocks max_chars overlap_chars = Some (concat per)" by blast
  have len: "length per = length blocks" using per by (simp add: list_all2_lengthD)
  have piece: "chunk_text_blocks [blocks ! i] max_chars overlap_chars = Some (per ! i)"
    if "i < length blocks" for i
    using per that by (simp add: list_all2_conv_all_nth)
  have bound: "int (length (text_str c)) \<le> max_chars" if "c \<in> set (concat per)" for c
  proof -
    from that obtain p where "p \<in> set per" "c \<in> set p" by auto
    then obtain i where i: "i < length per" "c \<in> set (per ! i)"
      by (metis in_set_conv_nth)
    let ?b = "blocks ! i"
    show ?thesis
    proof (cases "int (length (text_str ?b)) \<le> max_chars")
      case True
      then have "per ! i = [?b]" using piece[of i] i len by (simp add: chunk_single_small)
      then show ?thesis using i True by simp
    next
      case False
      from sliding_window_bounded[OF assms, of 0 ?b] obtain ys where
        ys: "\<forall>acc. sliding_window ?b max_chars overlap_chars 0 acc = Some (acc @ ys)"
        and bd: "\<forall>c\<in>set ys. int (length (text_str c)) \<le> max_chars \<and>
                   page c = page ?b \<and> bbox c = bbox ?b" by auto
      from ys have "sliding_window ?b max_chars overlap_chars 0 [] = Some ys"
        by (metis append_Nil)
      then have "per ! i = ys" using piece[of i] i len False by (simp add: chunk_single_large)
      then show ?thesis using bd i by simp
    qed
  qed
  have keep: "b \<in> set (concat per)"
    if "b \<in> set blocks" "int (length (text_str b)) \<le> max_chars" for b
  proof -
    from that(1) obtain i where i: "i < length blocks" "blocks ! i = b"
      by (auto simp: in_set_conv_nth)
    then have "per ! i = [b]" using piece[of i] that(2) by (simp add: chunk_single_small)
    then have "b \<in> set (per ! i)" by simp
    moreover have "per ! i \<in> set per" using i len by simp
    ultimately show ?thesis by auto
  qed
  from out bound keep show ?thesis by blast
qed

theorem chunk_text_blocks_bounded_witness:
  "(0::int) \<le> 3 \<and> (- 2::int) < 3 \<and>
   chunk_text_blocks [\<lparr>text_str = ''abcdefgh'', page = 2, bbox = (10, 20, 110, 40)\<rparr>, \<lparr>text_str = ''xy'', page = 2, bbox = (10, 20, 110, 40)\<rparr>] 3 (- 2) = Some [\<lparr>text_str = ''abc'', page = 2, bbox = (10, 20, 110, 40)\<rparr>, \<lparr>text_str = ''fgh'', page = 2, bbox = (10, 20, 110, 40)\<rparr>, \<lparr>text_str = ''xy'', page = 2, bbox = (10, 20, 110, 40)\<rparr>] \<and>
   (\<exists>chunks. chunk_text_blocks [\<lparr>text_str = ''abcdefgh'', page = 2, bbox = (10, 20, 110, 40)\<rparr>, \<lparr>text_str = ''xy'', page = 2, bbox = (10, 20, 110, 40)\<rparr>] 3 (- 2) = Some chunks \<and>
      (\<forall>c\<in>set chunks. int (length (text_str c)) \<le> 3) \<and>
      (\<forall>b\<in>set [\<lparr>text_str = ''abcdefgh'', page = 2, bbox = (10, 20, 110, 40)\<rparr>, \<lparr>text_str = ''xy'', page = 2, bbox = (10, 20, 110, 40)\<rparr>]. int (length (text_str b)) \<le> 3 \<longrightarrow> b \<in> set chunks))"
proof -
  have h: "(0::int) \<le> 3" "(- 2::int) < 3" by simp_all
  have v: "chunk_text_blocks [\<lparr>text_str = ''abcdefgh'', page = 2, bbox = (10, 20, 110, 40)\<rparr>, \<lparr>text_str = ''xy'', page = 2, bbox = (10, 20, 110, 40)\<rparr>] 3 (- 2) = Some [\<lparr>text_str = ''abc'', page = 2, bbox = (10, 20, 110, 40)\<rparr>, \<lparr>text_str = ''fgh'', page = 2, bbox = (10, 20, 110, 40)\<rparr>, \<lparr>text_str = ''xy'', page = 2, bbox = (10, 20, 110, 40)\<rparr>]"
    by code_simp
  from h v chunk_text_blocks_bounded[OF h, of "[\<lparr>text_str = ''abcdefgh'', page = 2, bbox = (10, 20, 110, 40)\<rparr>, \<lparr>text_str = ''xy'', page = 2, bbox = (10, 20, 110, 40)\<rparr>]"] show ?thesis by blast
qed

text \<open>
  The claim as stated, for every \<open>overlap_chars < max_chars\<close>, fails for a negative
  \<open>max_chars\<close>: with \<open>max_chars = -1\<close> and \<open>overlap_chars = -2\<close> the block \<open>ab\<close> is cut
  into the chunks \<open>a\<close> and the empty text, and the first is longer than \<open>max_chars\<close>.
\<close>

theorem chunk_text_blocks_bounded_counterexample:
  "(- 2::int) < - 1 \<and>
   chunk_text_blocks [\<lparr>text_str = ''ab'', page = 2, bbox = (10, 20, 110, 40)\<rparr>] (- 1) (- 2) = Some [\<lparr>text_str = ''a'', page = 2, bbox = (10, 20, 110, 40)\<rparr>, \<lparr>text_str = '''', page = 2, bbox = (10, 20, 110, 40)\<rparr>] \<and>
   \<not> int (length (text_str \<lparr>text_str = ''a'', page = 2, bbox = (10, 20, 110, 40)\<rparr>)) \<le> - 1"
  by code_simp

text \<open>
  Claim C7, as amended. For parameters with \<open>0 \<le> overlap_chars < max_chars\<close> and a block
  of the input whose text length \<open>L\<close> exceeds \<open>max_chars\<close>, the chunks of the block stand
  together in the output and are the slices number \<open>0\<close> to \<open>n\<close> of its text: slice \<open>k\<close>
  starts at \<open>k * (max_chars - overlap_chars)\<close> and is at most \<open>max_chars\<close> long; every slice
  before the last ends before \<open>L\<close>, the last one starts before \<open>L\<close> and ends at \<open>L\<close>; the
  last \<open>overlap_chars\<close> characters of a slice are the first \<open>overlap_chars\<close>
  characters of the next; and every chunk has the page and the bbox of the block.
\<close>

theorem sliding_window_closed_form:
  assumes "0 \<le> overlap_chars" "overlap_chars < max_chars"
    and "block \<in> set blocks" "max_chars < int (length (text_str block))"
  shows "\<exists>n pre post.
      chunk_text_blocks blocks max_chars overlap_chars =
        Some (pre @
              map (\<lambda>k. \<lparr>text_str = take (nat max_chars)
                             (drop (k * nat (max_chars - overlap_chars)) (text_str block)),
                         page = page block, bbox = bbox block\<rparr>) [0..<Suc n]
              @ post) \<and>
      (\<forall>k<n. k * nat (max_chars - overlap_chars) + nat max_chars < length (text_str block)) \<and>
      n * nat (max_chars - overlap_chars) < length (text_str block) \<and>
      length (text_str block) \<le> n * nat (max_chars - overlap_chars) + nat max_chars \<and>
      (\<forall>k<n. drop (nat (max_chars - overlap_chars))
                 (take (nat max_chars)
                    (drop (k * nat (max_chars - overlap_chars)) (text_str block))) =
               take (nat overlap_chars)
                 (take (nat max_chars)
                    (drop (Suc k * nat (max_chars - overlap_chars)) (text_str block))) \<and>
             length (take (nat overlap_chars)
                 (take (nat max_chars)
                    (drop (Suc k * nat (max_chars - overlap_chars)) (text_str block)))) =
               nat overlap_chars)"
proof -
  let ?M = "nat max_chars"
  let ?S = "nat (max_chars - overlap_chars)"
  let ?t = "text_str block"
  from large_block_chunks[OF assms(1,2,4)] obtain n where
    run: "chunk_text_blocks [block] max_chars overlap_chars =
            Some (map (\<lambda>k. make_chunk block (take ?M (drop (k * ?S) ?t))) [0..<Suc n])"
    and before: "\<forall>k<n. k * ?S + ?M < length ?t"
    and start: "n * ?S < length ?t"
    and last: "length ?t \<le> n * ?S + ?M" by blast
  from chunk_text_blocks_piece[OF assms(2,3)] obtain pre p post where
    p: "chunk_text_blocks [block] max_chars overlap_chars = Some p"
    and out: "chunk_text_blocks blocks max_chars overlap_chars = Some (pre @ p @ post)"
    by blast
  from run p have "p = map (\<lambda>k. make_chunk block (take ?M (drop (k * ?S) ?t))) [0..<Suc n]"
    by simp
  with out have A: "chunk_text_blocks blocks max_chars overlap_chars =
        Some (pre @ map (\<lambda>k. \<lparr>text_str = take ?M (drop (k * ?S) ?t),
                         page = page block, bbox = bbox block\<rparr>) [0..<Suc n] @ post)"
    by (simp only: make_chunk_eq)
  have conv: "nat max_chars - nat overlap_chars = ?S" "nat overlap_chars \<le> nat max_chars"
    using assms by simp_all
  have B: "drop ?S (take ?M (drop (k * ?S) ?t)) =
             take (nat overlap_chars) (take ?M (drop (Suc k * ?S) ?t)) \<and>
           length (take (nat overlap_chars) (take ?M (drop (Suc k * ?S) ?t))) =
             nat overlap_chars" if "k < n" for k
  proof -
    have "k * (nat max_chars - nat overlap_chars) + nat max_chars < length ?t"
      using before that by (simp only: conv)
    from chunk_overlap[OF conv(2) this] show ?thesis by (simp only: conv)
  qed
  from A before start last B show ?thesis by blast
qed

theorem sliding_window_closed_form_witness:
  "(0::int) \<le> 1 \<and> (1::int) < 3 \<and> \<lparr>text_str = ''abcdefgh'', page = 2, bbox = (10, 20, 110, 40)\<rparr> \<in> set [\<lparr>text_str = ''xy'', page = 2, bbox = (10, 20, 110, 40)\<rparr>, \<lparr>text_str = ''abcdefgh'', page = 2, bbox = (10, 20, 110, 40)\<rparr>] \<and> 3 < int (length (text_str \<lparr>text_str = ''abcdefgh'', page = 2, bbox = (10, 20, 110, 40)\<rparr>)) \<and>
   chunk_text_blocks [\<lparr>text_str = ''xy'', page = 2, bbox = (10, 20, 110, 40)\<rparr>, \<lparr>text_str = ''abcdefgh'', page = 2, bbox = (10, 20, 110, 40)\<rparr>] 3 1 = Some [\<lparr>text_str = ''xy'', page = 2, bbox = (10, 20, 110, 40)\<rparr>, \<lparr>text_str = ''abc'', page = 2, bbox = (10, 20, 110, 40)\<rparr>, \<lparr>text_str = ''cde'', page = 2, bbox = (10, 20, 110, 40)\<rparr>, \<lparr>text_str = ''efg'', page = 2, bbox = (10, 20, 110, 40)\<rparr>, \<lparr>text_str = ''gh'', page = 2, bbox = (10, 20, 110, 40)\<rparr>] \<and>
   (\<exists>n pre post.
      chunk_text_blocks [\<lparr>text_str = ''xy'', page = 2, bbox = (10, 20, 110, 40)\<rparr>, \<lparr>text_str = ''abcdefgh'', page = 2, bbox = (10, 20, 110, 40)\<rparr>] 3 1 =
        Some (pre @
              map (\<lambda>k. \<lparr>text_str = take (nat 3) (drop (k * nat (3 - 1)) (text_str \<lparr>text_str = ''abcdefgh'', page = 2, bbox = (10, 20, 110, 40)\<rparr>)),
                         page = page \<lparr>text_str = ''abcdefgh'', page = 2, bbox = (10, 20, 110, 40)\<rparr>, bbox = bbox \<lparr>text_str = ''abcdefgh'', page = 2, bbox = (10, 20, 110, 40)\<rparr>\<rparr>) [0..<Suc n]
              @ post) \<and>
      (\<forall>k<n. k * nat (3 - 1) + nat 3 < length (text_str \<lparr>text_str = ''abcdefgh'', page = 2, bbox = (10, 20, 110, 40)\<rparr>)) \<and>
      n * nat (3 - 1) < length (text_str \<lparr>text_str = ''abcdefgh'', page = 2, bbox = (10, 20, 110, 40)\<rparr>) \<and>
      length (text_str \<lparr>text_str = ''abcdefgh'', page = 2, bbox = (10, 20, 110, 40)\<rparr>) \<le> n * nat (3 - 1) + nat 3 \<and>
      (\<forall>k<n. drop (nat (3 - 1)) (take (nat 3) (drop (k * nat (3 - 1)) (text_str \<lparr>text_str = ''abcdefgh'', page = 2, bbox = (10, 20, 110, 40)\<rparr>))) =
               take (nat 1) (take (nat 3) (drop (Suc k * nat (3 - 1)) (text_str \<lparr>text_str = ''abcdefgh'', page = 2, bbox = (10, 20, 110, 40)\<rparr>))) \<and>
             length (take (nat 1) (take (nat 3) (drop (Suc k * nat (3 - 1)) (text_str \<lparr>text_str = ''abcdefgh'', page = 2, bbox = (10, 20, 110, 40)\<rparr>)))) =
               nat 1))"
proof -
  have h: "(0::int) \<le> 1" "(1::int) < 3" "\<lparr>text_str = ''abcdefgh'', page = 2, bbox = (10, 20, 110, 40)\<rparr> \<in> set [\<lparr>text_str = ''xy'', page = 2, bbox = (10, 20, 110, 40)\<rparr>, \<lparr>text_str = ''abcdefgh'', page = 2, bbox = (10, 20, 110, 40)\<rparr>]"
    "3 < int (length (text_str \<lparr>text_str = ''abcdefgh'', page = 2, bbox = (10, 20, 110, 40)\<rparr>))" by simp_all
  have v: "chunk_text_blocks [\<lparr>text_str = ''xy'', page = 2, bbox = (10, 20, 110, 40)\<rparr>, \<lparr>text_str = ''abcdefgh'', page = 2, bbox = (10, 20, 110, 40)\<rparr>] 3 1 = Some [\<lparr>text_str = ''xy'', page = 2, bbox = (10, 20, 110, 40)\<rparr>, \<lparr>text_str = ''abc'', page = 2, bbox = (10, 20, 110, 40)\<rparr>, \<lparr>text_str = ''cde'', page = 2, bbox = (10, 20, 110, 40)\<rparr>, \<lparr>text_str = ''efg'', page = 2, bbox = (10, 20, 110, 40)\<rparr>, \<lparr>text_str = ''gh'', page = 2, bbox = (10, 20, 110, 40)\<rparr>]"
    by code_simp
  from h v sliding_window_closed_form[OF h] show ?thesis by blast
qed

text \<open>
  The claim as stated, for every \<open>overlap_chars < max_chars\<close>, fails for a negative
  \<open>overlap_chars\<close>: with \<open>max_chars = 3\<close> and \<open>overlap_chars = -10\<close> the eight characters
  \<open>abcdefgh\<close> give the single chunk \<open>abc\<close>, which ends at position 3, not at position 8.
\<close>

theorem sliding_window_closed_form_counterexample:
  "(- 10::int) < 3 \<and> 3 < int (length (text_str \<lparr>text_str = ''abcdefgh'', page = 2, bbox = (10, 20, 110, 40)\<rparr>)) \<and>
   chunk_text_blocks [\<lparr>text_str = ''abcdefgh'', page = 2, bbox = (10, 20, 110, 40)\<rparr>] 3 (- 10) = Some [\<lparr>text_str = ''abc'', page = 2, bbox = (10, 20, 110, 40)\<rparr>] \<and>
   \<not> endswith (text_str \<lparr>text_str = ''abcdefgh'', page = 2, bbox = (10, 20, 110, 40)\<rparr>) (text_str \<lparr>text_str = ''abc'', page = 2, bbox = (10, 20, 110, 40)\<rparr>)"
  by code_simp

text \<open>
  Claim C8. Under \<open>0 \<le> overlap_chars < max_chars\<close> and \<open>max_chars \<ge> 1\<close>,
  \<open>chunk_text_blocks\<close> returns on every block list, the sliding-window loop returns from
  every start position, and each iteration of the loop strictly advances the window
  start.
\<close>

theorem chunk_text_blocks_terminates:
  assumes "0 \<le> overlap_chars" "overlap_chars < max_chars" "1 \<le> max_chars"
  shows "(\<exists>chunks. chunk_text_blocks blocks max_chars overlap_chars = Some chunks) \<and>
         (\<forall>block start acc. \<exists>chunks.
             sliding_window block max_chars overlap_chars start acc = Some chunks) \<and>
         (\<forall>(t::string) start. start < int (length t) \<longrightarrow>
             start < window_next t max_chars overlap_chars start)"
proof (intro conjI allI impI)
  show "\<exists>chunks. chunk_text_blocks blocks max_chars overlap_chars = Some chunks"
    using chunk_text_blocks_concat[OF assms(2), of blocks] by blast
next
  fix block start acc
  show "\<exists>chunks. sliding_window block max_chars overlap_chars start acc = Some chunks"
    using sliding_window_total[OF assms(2), of block start] by blast
next
  fix t :: string and start :: int
  assume "start < int (length t)"
  with assms(2) show "start < window_next t max_chars overlap_chars start"
    by (rule window_next_advances)
qed

theorem chunk_text_blocks_terminates_witness:
  "(0::int) \<le> 1 \<and> (1::int) < 3 \<and> (1::int) \<le> 3 \<and>
   chunk_text_blocks [\<lparr>text_str = ''abcdefgh'', page = 2, bbox = (10, 20, 110, 40)\<rparr>] 3 1 = Some [\<lparr>text_str = ''abc'', page = 2, bbox = (10, 20, 110, 40)\<rparr>, \<lparr>text_str = ''cde'', page = 2, bbox = (10, 20, 110, 40)\<rparr>, \<lparr>text_str = ''efg'', page = 2, bbox = (10, 20, 110, 40)\<rparr>, \<lparr>text_str = ''gh'', page = 2, bbox = (10, 20, 110, 40)\<rparr>] \<and>
   (\<exists>chunks. chunk_text_blocks [\<lparr>text_str = ''abcdefgh'', page = 2, bbox = (10, 20, 110, 40)\<rparr>] 3 1 = Some chunks) \<and>
   (\<exists>chunks. sliding_window \<lparr>text_str = ''abcdefgh'', page = 2, bbox = (10, 20, 110, 40)\<rparr> 3 1 0 [] = Some chunks) \<and>
   (0::int) < window_next ''abcdefgh'' 3 1 0"
proof -
  have h: "(0::int) \<le> 1" "(1::int) < 3" "(1::int) \<le> 3" by simp_all
  have v: "chunk_text_blocks [\<lparr>text_str = ''abcdefgh'', page = 2, bbox = (10, 20, 110, 40)\<rparr>] 3 1 = Some [\<lparr>text_str = ''abc'', page = 2, bbox = (10, 20, 110, 40)\<rparr>, \<lparr>text_str = ''cde'', page = 2, bbox = (10, 20, 110, 40)\<rparr>, \<lparr>text_str = ''efg'', page = 2, bbox = (10, 20, 110, 40)\<rparr>, \<lparr>text_str = ''gh'', page = 2, bbox = (10, 20, 110, 40)\<rparr>]"
    by code_simp
  have p: "(0::int) < int (length ''abcdefgh'')" by simp
  from h v p chunk_text_blocks_terminates[OF h, of "[\<lparr>text_str = ''abcdefgh'', page = 2, bbox = (10, 20, 110, 40)\<rparr>]"] show ?thesis by blast
qed

text \<open>
  Claim C10, as amended. For parameters with \<open>0 \<le> overlap_chars < max_chars\<close>, the output
  is the concatenation, in the order of the input blocks, of the chunks of each block;
  the chunks of one block are slices \<open>[lo, hi)\<close> of its text with strictly increasing
  \<open>lo\<close>, and every character position of the text lies in one of them.
\<close>

theorem chunks_cover_text:
  assumes "0 \<le> overlap_chars" "overlap_chars < max_chars"
  shows "\<exists>wss. length wss = length blocks \<and>
      chunk_text_blocks blocks max_chars overlap_chars =
        Some (concat (map2 (\<lambda>b ws. map (\<lambda>w.
                \<lparr>text_str = take (snd w - fst w) (drop (fst w) (text_str b)),
                 page = page b, bbox = bbox b\<rparr>) ws) blocks wss)) \<and>
      (\<forall>i<length blocks.
          sorted_wrt (\<lambda>w w'. fst w < fst w') (wss ! i) \<and>
          (\<forall>w\<in>set (wss ! i). snd w \<le> length (text_str (blocks ! i))) \<and>
          (\<forall>p<length (text_str (blocks ! i)). \<exists>w\<in>set (wss ! i). fst w \<le> p \<and> p < snd w))"
proof -
  let ?sl = "\<lambda>b ws. map (\<lambda>w. make_chunk b
                 (take (snd w - fst w) (drop (fst w) (text_str b)))) ws"
  from windows_exist[OF assms, of blocks] obtain wss where
    wss: "list_all2 (\<lambda>b ws.
            chunk_text_blocks [b] max_chars overlap_chars = Some (?sl b ws) \<and>
            sorted_wrt (\<lambda>w w'. fst w < fst w') ws \<and>
            (\<forall>p<length (text_str b). \<exists>w\<in>set ws. fst w \<le> p \<and> p < snd w) \<and>
            (\<forall>w\<in>set ws. snd w \<le> length (text_str b))) blocks wss" by blast
  from chunk_text_blocks_concat[OF assms(2)] obtain per where
    per: "list_all2 (\<lambda>b p. chunk_text_blocks [b] max_chars overlap_chars = Some p) blocks per"
    and out: "chunk_text_blocks blocks max_chars overlap_chars = Some (concat per)" by blast
  have len: "length wss = length blocks" "length per = length blocks"
    using wss per by (auto dest: list_all2_lengthD)
  have at: "chunk_text_blocks [blocks ! i] max_chars overlap_chars = Some (?sl (blocks ! i) (wss ! i)) \<and>
            sorted_wrt (\<lambda>w w'. fst w < fst w') (wss ! i) \<and>
            (\<forall>p<length (text_str (blocks ! i)). \<exists>w\<in>set (wss ! i). fst w \<le> p \<and> p < snd w) \<and>
            (\<forall>w\<in>set (wss ! i). snd w \<le> length (text_str (blocks ! i)))"
    if "i < length blocks" for i
    using wss that by (simp add: list_all2_conv_all_nth)
  have "per = map2 ?sl blocks wss"
  proof (rule nth_equalityI)
    show "length per = length (map2 ?sl blocks wss)" using len by simp
  next
    fix i assume "i < length per"
    then have i: "i < length blocks" using len by simp
    then have "chunk_text_blocks [blocks ! i] max_chars overlap_chars = Some (per ! i)"
      using per by (simp add: list_all2_conv_all_nth)
    then have "per ! i = ?sl (blocks ! i) (wss ! i)" using at[OF i] by simp
    then show "per ! i = map2 ?sl blocks wss ! i" using i len by simp
  qed
  with out have "chunk_text_blocks blocks max_chars overlap_chars =
        Some (concat (map2 (\<lambda>b ws. map (\<lambda>w.
                \<lparr>text_str = take (snd w - fst w) (drop (fst w) (text_str b)),
                 page = page b, bbox = bbox b\<rparr>) ws) blocks wss))"
    by (simp only: make_chunk_eq)
  with len(1) at show ?thesis by blast
qed

theorem chunks_cover_text_witness:
  "(0::int) \<le> 1 \<and> (1::int) < 3 \<and>
   chunk_text_blocks [\<lparr>text_str = ''xy'', page = 2, bbox = (10, 20, 110, 40)\<rparr>, \<lparr>text_str = ''abcdefgh'', page = 2, bbox = (10, 20, 110, 40)\<rparr>] 3 1 = Some [\<lparr>text_str = ''xy'', page = 2, bbox = (10, 20, 110, 40)\<rparr>, \<lparr>text_str = ''abc'', page = 2, bbox = (10, 20, 110, 40)\<rparr>, \<lparr>text_str = ''cde'', page = 2, bbox = (10, 20, 110, 40)\<rparr>, \<lparr>text_str = ''efg'', page = 2, bbox = (10, 20, 110, 40)\<rparr>, \<lparr>text_str = ''gh'', page = 2, bbox = (10, 20, 110, 40)\<rparr>] \<and>
   (\<exists>wss. length wss = length [\<lparr>text_str = ''xy'', page = 2, bbox = (10, 20, 110, 40)\<rparr>, \<lparr>text_str = ''abcdefgh'', page = 2, bbox = (10, 20, 110, 40)\<rparr>] \<and>
      chunk_text_blocks [\<lparr>text_str = ''xy'', page = 2, bbox = (10, 20, 110, 40)\<rparr>, \<lparr>text_str = ''abcdefgh'', page = 2, bbox = (10, 20, 110, 40)\<rparr>] 3 1 =
        Some (concat (map2 (\<lambda>b ws. map (\<lambda>w.
                \<lparr>text_str = take (snd w - fst w) (drop (fst w) (text_str b)),
                 page = page b, bbox = bbox b\<rparr>) ws) [\<lparr>text_str = ''xy'', page = 2, bbox = (10, 20, 110, 40)\<rparr>, \<lparr>text_str = ''abcdefgh'', page = 2, bbox = (10, 20, 110, 40)\<rparr>] wss)) \<and>
      (\<forall>i<length [\<lparr>text_str = ''xy'', page = 2, bbox = (10, 20, 110, 40)\<rparr>, \<lparr>text_str = ''abcdefgh'', page = 2, bbox = (10, 20, 110, 40)\<rparr>].
          sorted_wrt (\<lambda>w w'. fst w < fst w') (wss ! i) \<and>
          (\<forall>w\<in>set (wss ! i). snd w \<le> length (text_str ([\<lparr>text_str = ''xy'', page = 2, bbox = (10, 20, 110, 40)\<rparr>, \<lparr>text_str = ''abcdefgh'', page = 2, bbox = (10, 20, 110, 40)\<rparr>] ! i))) \<and>
          (\<forall>p<length (text_str ([\<lparr>text_str = ''xy'', page = 2, bbox = (10, 20, 110, 40)\<rparr>, \<lparr>text_str = ''abcdefgh'', page = 2, bbox = (10, 20, 110, 40)\<rparr>] ! i)).
              \<exists>w\<in>set (wss ! i). fst w \<le> p \<and> p < snd w)))"
proof -
  have h: "(0::int) \<le> 1" "(1::int) < 3" by simp_all
  have v: "chunk_text_blocks [\<lparr>text_str = ''xy'', page = 2, bbox = (10, 20, 110, 40)\<rparr>, \<lparr>text_str = ''abcdefgh'', page = 2, bbox = (10, 20, 110, 40)\<rparr>] 3 1 = Some [\<lparr>text_str = ''xy'', page = 2, bbox = (10, 20, 110, 40)\<rparr>, \<lparr>text_str = ''abc'', page = 2, bbox = (10, 20, 110, 40)\<rparr>, \<lparr>text_str = ''cde'', page = 2, bbox = (10, 20, 110, 40)\<rparr>, \<lparr>text_str = ''efg'', page = 2, bbox = (10, 20, 110, 40)\<rparr>, \<lparr>text_str = ''gh'', page = 2, bbox = (10, 20, 110, 40)\<rparr>]"
    by code_simp
  from h v chunks_cover_text[OF h, of "[\<lparr>text_str = ''xy'', page = 2, bbox = (10, 20, 110, 40)\<rparr>, \<lparr>text_str = ''abcdefgh'', page = 2, bbox = (10, 20, 110, 40)\<rparr>]"] show ?thesis by blast
qed

text \<open>
  The claim as stated, for every call, fails for a negative \<open>overlap_chars\<close>: with
  \<open>max_chars = 3\<close> and \<open>overlap_chars = -2\<close> the text \<open>abcdefgh\<close> gives the chunks \<open>abc\<close>
  and \<open>fgh\<close>; the character \<open>d\<close> of the text is in neither.
\<close>

theorem chunks_cover_text_counterexample:
  "chunk_text_blocks [\<lparr>text_str = ''abcdefgh'', page = 2, bbox = (10, 20, 110, 40)\<rparr>] 3 (- 2) = Some [\<lparr>text_str = ''abc'', page = 2, bbox = (10, 20, 110, 40)\<rparr>, \<lparr>text_str = ''fgh'', page = 2, bbox = (10, 20, 110, 40)\<rparr>] \<and>
   text_str \<lparr>text_str = ''abcdefgh'', page = 2, bbox = (10, 20, 110, 40)\<rparr> ! 3 = CHR ''d'' \<and>
   CHR ''d'' \<notin> set (text_str \<lparr>text_str = ''abc'', page = 2, bbox = (10, 20, 110, 40)\<rparr>) \<and> CHR ''d'' \<notin> set (text_str \<lparr>text_str = ''fgh'', page = 2, bbox = (10, 20, 110, 40)\<rparr>)"
  by code_simp

section \<open>Properties of the vector store\<close>

lemma get_collection_eq:
  "get_collection client sid = Inr (client (collection_name sid))"
  by (simp add: get_collection_def client_get_collection_def split: option.splits)

lemma create_collection_eq:
  "create_collection client sid = Inr (client(collection_name sid \<mapsto> []))"
  by (simp add: create_collection_def client_delete_collection_def
      client_create_collection_def split: option.splits)

lemma delete_collection_eq:
  "delete_collection client sid =
     Inr (client (collection_name sid) \<noteq> None, client(collection_name sid := None))"
  by (auto simp: delete_collection_def client_delete_collection_def split: option.splits)

lemma query_no_collection:
  "client (collection_name sid) = None \<Longrightarrow> query rank client sid q k = Inr []"
  by (simp add: query_def get_collection_eq)

lemma new_records_eq:
  "map (\<lambda>i. \<lparr>rec_id = map (\<lambda>i. ''block_'' @ str_of_nat i) [0..<length blocks] ! i,
              rec_embedding = embeddings ! i,
              rec_document = map text_str blocks ! i,
              rec_metadata = map block_metadata blocks ! i\<rparr>)
     [0..<length (map (\<lambda>i. ''block_'' @ str_of_nat i) [0..<length blocks])] =
   new_records blocks embeddings"
  unfolding new_records_def by (rule map_cong) simp_all

lemma collection_add_blocks:
  "collection_add client name (map (\<lambda>i. ''block_'' @ str_of_nat i) [0..<length blocks])
     embeddings (map text_str blocks) (map block_metadata blocks) =
   (if length embeddings \<noteq> length blocks then Inl ValueError
    else case client name of
           None \<Rightarrow> Inl ValueError
         | Some records \<Rightarrow>
             Inr (client(name \<mapsto> records @
               filter (\<lambda>r. rec_id r \<notin> set (map rec_id records))
                 (new_records blocks embeddings))))"
  unfolding collection_add_def new_records_eq by simp

lemma add_documents_eq:
  "add_documents client sid blocks embeddings =
   (if length embeddings \<noteq> length blocks then Inl ValueError
    else Inr (client(collection_name sid \<mapsto>
           (case client (collection_name sid) of None \<Rightarrow> [] | Some old \<Rightarrow> old) @
           filter (\<lambda>r. rec_id r \<notin> set (map rec_id
                     (case client (collection_name sid) of None \<Rightarrow> [] | Some old \<Rightarrow> old)))
             (new_records blocks embeddings))))"
  unfolding add_documents_def get_collection_eq create_collection_eq sum.case
    collection_add_blocks
  by (simp split: option.splits)

lemma query_result_source:
  assumes "query rank client sid q k = Inr results" "r \<in> set results"
  shows "\<exists>records rec. client (collection_name sid) = Some records \<and> rec \<in> set records \<and>
           res_text r = rec_document rec \<and>
           res_page r = meta_page (rec_metadata rec) \<and>
           res_bbox r = [meta_bbox_x0 (rec_metadata rec), meta_bbox_y0 (rec_metadata rec),
                         meta_bbox_x1 (rec_metadata rec), meta_bbox_y1 (rec_metadata rec)]"
proof (cases "client (collection_name sid)")
  case None
  with assms show ?thesis by (simp add: query_no_collection)
next
  case (Some records)
  let ?res = "collection_query rank records q k"
  from assms Some obtain i where i: "i < length ?res"
    and r: "r = (case ?res ! i of (rc, d) \<Rightarrow>
                \<lparr>res_id = int i + 1, res_text = rec_document rc,
                 res_page = meta_page (rec_metadata rc),
                 res_bbox = [meta_bbox_x0 (rec_metadata rc), meta_bbox_y0 (rec_metadata rc),
                             meta_bbox_x1 (rec_metadata rc), meta_bbox_y1 (rec_metadata rc)],
                 res_distance = d\<rparr>)"
    by (auto simp: query_def get_collection_eq Let_def)
  obtain rc d where rd: "?res ! i = (rc, d)" by (cases "?res ! i")
  have "(rc, d) \<in> set ?res" using i rd by (metis nth_mem)
  then have "rc \<in> set records"
    by (auto simp: collection_query_def dest!: in_set_takeD)
  with Some r rd show ?thesis by auto
qed

lemma str_of_nat_0: "str_of_nat 0 = ''0''"
  by (simp add: str_of_nat.simps digit_char_def)

lemma add_documents_fresh:
  assumes "length embeddings = length blocks"
    and "client (collection_name sid) = None \<or> client (collection_name sid) = Some []"
  shows "add_documents client sid blocks embeddings =
           Inr (client(collection_name sid \<mapsto> new_records blocks embeddings))"
  using assms by (auto simp: add_documents_eq)

section \<open>Claims about the vector store\<close>

text \<open>
  Claim C2. After \<open>add_documents\<close>, every result that \<open>query\<close> returns for the session
  either stems from one of the blocks just added, and then its text is the full text of
  that block, of the same length however long it is, together with the block's page and
  bbox; or it is the document, page and bbox of a record that the collection held
  before the call. The text comes from the stored document, never from the metadata
  copy that is cut to 500 characters.
\<close>

theorem query_returns_full_text:
  assumes "add_documents client sid blocks embeddings = Inr client'"
    and "query rank client' sid q top_k = Inr results"
    and "r \<in> set results"
  shows "(\<exists>i<length blocks.
            res_text r = text_str (blocks ! i) \<and>
            length (res_text r) = length (text_str (blocks ! i)) \<and>
            res_page r = page (blocks ! i) \<and>
            res_bbox r = (case bbox (blocks ! i) of (x0, y0, x1, y1) \<Rightarrow> [x0, y0, x1, y1])) \<or>
         (\<exists>records old. client (collection_name sid) = Some records \<and> old \<in> set records \<and>
            res_text r = rec_document old \<and>
            res_page r = meta_page (rec_metadata old) \<and>
            res_bbox r = [meta_bbox_x0 (rec_metadata old), meta_bbox_y0 (rec_metadata old),
                          meta_bbox_x1 (rec_metadata old), meta_bbox_y1 (rec_metadata old)])"
proof -
  let ?old = "case client (collection_name sid) of None \<Rightarrow> [] | Some old \<Rightarrow> old"
  from assms(1) have c': "client' (collection_name sid) =
      Some (?old @ filter (\<lambda>r. rec_id r \<notin> set (map rec_id ?old)) (new_records blocks embeddings))"
    by (auto simp: add_documents_eq split: if_splits)
  from query_result_source[OF assms(2,3)] obtain records rc where
    recs: "client' (collection_name sid) = Some records" and rc: "rc \<in> set records"
    and fields: "res_text r = rec_document rc" "res_page r = meta_page (rec_metadata rc)"
      "res_bbox r = [meta_bbox_x0 (rec_metadata rc), meta_bbox_y0 (rec_metadata rc),
                     meta_bbox_x1 (rec_metadata rc), meta_bbox_y1 (rec_metadata rc)]"
    by blast
  from c' recs rc consider (old) "rc \<in> set ?old" | (new) "rc \<in> set (new_records blocks embeddings)"
    by auto
  then show ?thesis
  proof cases
    case old
    then obtain records0 where "client (collection_name sid) = Some records0" "rc \<in> set records0"
      by (cases "client (collection_name sid)") auto
    with fields show ?thesis by blast
  next
    case new
    then obtain i where i: "i < length blocks"
      and rci: "rc = \<lparr>rec_id = ''block_'' @ str_of_nat i, rec_embedding = embeddings ! i,
                rec_document = text_str (blocks ! i),
                rec_metadata = block_metadata (blocks ! i)\<rparr>"
      by (auto simp: new_records_def)
    obtain x0 y0 x1 y1 where bb: "bbox (blocks ! i) = (x0, y0, x1, y1)"
      by (cases "bbox (blocks ! i)")
    have "res_text r = text_str (blocks ! i)" using fields rci by simp
    moreover have "res_page r = page (blocks ! i)"
      using fields rci bb by (simp add: block_metadata_def)
    moreover have "res_bbox r = (case bbox (blocks ! i) of (x0, y0, x1, y1) \<Rightarrow> [x0, y0, x1, y1])"
      using fields rci bb by (simp add: block_metadata_def)
    ultimately show ?thesis using i by auto
  qed
qed

theorem query_returns_full_text_witness:
  "add_documents Map.empty ''s1''
     [\<lparr>text_str = replicate 600 (CHR ''x''), page = 3, bbox = (1, 2, 3, 4)\<rparr>] [[1, 0]] =
     Inr [''session_s1'' \<mapsto>
       [\<lparr>rec_id = ''block_0'', rec_embedding = [1, 0],
         rec_document = replicate 600 (CHR ''x''),
         rec_metadata = \<lparr>meta_page = 3, meta_bbox_x0 = 1, meta_bbox_y0 = 2,
           meta_bbox_x1 = 3, meta_bbox_y1 = 4, meta_text = replicate 500 (CHR ''x'')\<rparr>\<rparr>]] \<and>
   query (\<lambda>q es. [(0, 0)])
     [''session_s1'' \<mapsto>
       [\<lparr>rec_id = ''block_0'', rec_embedding = [1, 0],
         rec_document = replicate 600 (CHR ''x''),
         rec_metadata = \<lparr>meta_page = 3, meta_bbox_x0 = 1, meta_bbox_y0 = 2,
           meta_bbox_x1 = 3, meta_bbox_y1 = 4, meta_text = replicate 500 (CHR ''x'')\<rparr>\<rparr>]]
     ''s1'' [1, 0] 3 =
     Inr [\<lparr>res_id = 1, res_text = replicate 600 (CHR ''x''), res_page = 3,
           res_bbox = [1, 2, 3, 4], res_distance = 0\<rparr>] \<and>
   length (res_text \<lparr>res_id = 1, res_text = replicate 600 (CHR ''x''), res_page = 3,
           res_bbox = [1, 2, 3, 4], res_distance = 0\<rparr>) = 600 \<and>
   ((\<exists>i<length [\<lparr>text_str = replicate 600 (CHR ''x''), page = 3, bbox = (1, 2, 3, 4)\<rparr>].
       res_text \<lparr>res_id = 1, res_text = replicate 600 (CHR ''x''), res_page = 3,
           res_bbox = [1, 2, 3, 4], res_distance = 0\<rparr> =
         text_str ([\<lparr>text_str = replicate 600 (CHR ''x''), page = 3, bbox = (1, 2, 3, 4)\<rparr>] ! i)) \<or>
    (\<exists>records. (Map.empty :: chroma) (collection_name ''s1'') = Some records))"
proof -
  let ?B = "\<lparr>text_str = replicate 600 (CHR ''x''), page = 3, bbox = (1, 2, 3, 4)\<rparr>"
  let ?REC = "\<lparr>rec_id = ''block_0'', rec_embedding = [1, 0],
         rec_document = replicate 600 (CHR ''x''),
         rec_metadata = \<lparr>meta_page = 3, meta_bbox_x0 = 1, meta_bbox_y0 = 2,
           meta_bbox_x1 = 3, meta_bbox_y1 = 4, meta_text = replicate 500 (CHR ''x'')\<rparr>\<rparr>"
  let ?RES = "\<lparr>res_id = 1, res_text = replicate 600 (CHR ''x''), res_page = 3,
           res_bbox = [1, 2, 3, 4], res_distance = 0\<rparr>"
  have h1: "add_documents Map.empty ''s1'' [?B] [[1, 0]] = Inr [''session_s1'' \<mapsto> [?REC]]"
    by (simp add: add_documents_eq new_records_def str_of_nat_0 block_metadata_def
        py_slice_def slice_bound_def collection_name_def)
  have h2: "query (\<lambda>q es. [(0, 0)]) [''session_s1'' \<mapsto> [?REC]] ''s1'' [1, 0] 3 = Inr [?RES]"
    by (simp add: query_def get_collection_eq collection_query_def collection_name_def)
  have h3: "?RES \<in> set [?RES]" by simp
  have len: "length (res_text ?RES) = 600" by simp
  from query_returns_full_text[OF h1 h2 h3] h1 h2 len show ?thesis by blast
qed

text \<open>
  Claim C3, evaluated where it fails. \<open>add_documents\<close> numbers the records of every
  call \<open>block_0\<close>, \<open>block_1\<close>, ... from zero. A second call on the same session
  therefore offers ids that the collection already holds: after a first call with one
  block, a second call with another block leaves the collection as it was, and the
  second block is not appended.
\<close>

theorem add_documents_second_add_dropped:
  "add_documents Map.empty ''s1''
     [\<lparr>text_str = ''Experience: ...'', page = 1, bbox = (1, 2, 3, 4)\<rparr>] [[1, 0]] =
     Inr [''session_s1'' \<mapsto>
       [\<lparr>rec_id = ''block_0'', rec_embedding = [1, 0], rec_document = ''Experience: ...'',
         rec_metadata = \<lparr>meta_page = 1, meta_bbox_x0 = 1, meta_bbox_y0 = 2,
           meta_bbox_x1 = 3, meta_bbox_y1 = 4, meta_text = ''Experience: ...''\<rparr>\<rparr>]] \<and>
   add_documents
     [''session_s1'' \<mapsto>
       [\<lparr>rec_id = ''block_0'', rec_embedding = [1, 0], rec_document = ''Experience: ...'',
         rec_metadata = \<lparr>meta_page = 1, meta_bbox_x0 = 1, meta_bbox_y0 = 2,
           meta_bbox_x1 = 3, meta_bbox_y1 = 4, meta_text = ''Experience: ...''\<rparr>\<rparr>]]
     ''s1'' [\<lparr>text_str = ''Skills: Python'', page = 2, bbox = (5, 6, 7, 8)\<rparr>] [[0, 1]] =
     Inr [''session_s1'' \<mapsto>
       [\<lparr>rec_id = ''block_0'', rec_embedding = [1, 0], rec_document = ''Experience: ...'',
         rec_metadata = \<lparr>meta_page = 1, meta_bbox_x0 = 1, meta_bbox_y0 = 2,
           meta_bbox_x1 = 3, meta_bbox_y1 = 4, meta_text = ''Experience: ...''\<rparr>\<rparr>]]"
  by (simp add: add_documents_eq new_records_def str_of_nat_0 block_metadata_def
      py_slice_def slice_bound_def collection_name_def)

text \<open>
  Claim C9. A query on a session without a collection returns the empty list, not an
  error. Deleting a session's collection returns; a query on the session afterwards
  returns the empty list, and a second delete returns \<open>False\<close>, not an error.
\<close>

theorem query_and_delete_without_collection:
  "(get_collection client sid = Inr None \<longrightarrow> query rank client sid q top_k = Inr []) \<and>
   (\<exists>deleted client'. delete_collection client sid = Inr (deleted, client') \<and>
       query rank client' sid q top_k = Inr [] \<and>
       delete_collection client' sid = Inr (False, client'))"
proof -
  let ?c = "client(collection_name sid := None)"
  have "delete_collection ?c sid = Inr (False, ?c)"
    by (simp add: delete_collection_eq)
  moreover have "query rank ?c sid q top_k = Inr []"
    by (simp add: query_no_collection)
  ultimately show ?thesis
    by (simp add: delete_collection_eq get_collection_eq query_no_collection)
qed

theorem query_and_delete_without_collection_witness:
  "get_collection Map.empty ''s1'' = Inr None \<and>
   query (\<lambda>q es. [(0, 0)]) Map.empty ''s1'' [1, 0] 3 = Inr [] \<and>
   delete_collection [''session_s1'' \<mapsto> []] ''s1'' = Inr (True, Map.empty) \<and>
   query (\<lambda>q es. [(0, 0)]) Map.empty ''s1'' [1, 0] 3 = Inr [] \<and>
   delete_collection Map.empty ''s1'' = Inr (False, Map.empty)"
proof -
  have h: "get_collection Map.empty ''s1'' = Inr None"
    by (simp add: get_collection_def client_get_collection_def)
  have d: "delete_collection [''session_s1'' \<mapsto> []] ''s1'' = Inr (True, Map.empty)"
    by (simp add: delete_collection_def client_delete_collection_def collection_name_def)
  from query_and_delete_without_collection[of "[''session_s1'' \<mapsto> []]" "''s1''"
      "\<lambda>q es. [(0, 0)]" "[1, 0]" 3] d
  have a: "query (\<lambda>q es. [(0, 0)]) Map.empty ''s1'' [1, 0] 3 = Inr [] \<and>
           delete_collection Map.empty ''s1'' = Inr (False, Map.empty)"
    by simp
  from query_and_delete_without_collection[of Map.empty "''s1''"
      "\<lambda>q es. [(0, 0)]" "[1, 0]" 3] h
  have b: "query (\<lambda>q es. [(0, 0)]) Map.empty ''s1'' [1, 0] 3 = Inr []" by blast
  from h d a b show ?thesis by blast
qed

section \<open>Properties of the registry and the sweeper\<close>

lemma collection_name_inj [simp]: "collection_name a = collection_name b \<longleftrightarrow> a = b"
  by (simp add: collection_name_def)

lemma temp_pdf_path_inj [simp]: "temp_pdf_path a = temp_pdf_path b \<longleftrightarrow> a = b"
  by (simp add: temp_pdf_path_def)

lemma delete_session_eq:
  "delete_session flt s sid =
     (case flt Delete_collection sid of
        Some msg \<Rightarrow> (Some (Unavailable msg), s)
      | None \<Rightarrow>
          (if temp_pdfs s (temp_pdf_path sid) \<noteq> None \<and> flt Unlink_pdf sid \<noteq> None
           then (Some (Unavailable (the (flt Unlink_pdf sid))),
                 s\<lparr>collections := (collections s)(collection_name sid := None)\<rparr>)
           else
             (case flt Delete_row sid of
                Some msg \<Rightarrow>
                  (Some (Unavailable msg),
                   s\<lparr>collections := (collections s)(collection_name sid := None),
                     temp_pdfs := (temp_pdfs s)(temp_pdf_path sid := None)\<rparr>)
              | None \<Rightarrow>
                  (None,
                   s\<lparr>collections := (collections s)(collection_name sid := None),
                     temp_pdfs := (temp_pdfs s)(temp_pdf_path sid := None),
                     sessions := filter (\<lambda>r. session_id r \<noteq> sid) (sessions s)\<rparr>))))"
  by (auto simp: delete_session_def delete_row_def delete_collection_eq Let_def fun_upd_idem
      split: option.splits)

lemma delete_session_outcome_cong:
  assumes "temp_pdfs s1 (temp_pdf_path sid) = None \<longleftrightarrow> temp_pdfs s (temp_pdf_path sid) = None"
  shows "fst (delete_session flt s1 sid) = fst (delete_session flt s sid)"
  using assms by (auto simp: delete_session_eq split: option.splits)

lemma delete_session_sessions:
  "sessions (snd (delete_session flt s sid)) =
     (if fst (delete_session flt s sid) = None
      then filter (\<lambda>r. session_id r \<noteq> sid) (sessions s) else sessions s)"
  by (auto simp: delete_session_eq split: option.splits)

lemma delete_session_printed:
  "printed (snd (delete_session flt s sid)) = printed s"
  by (auto simp: delete_session_eq split: option.splits)

lemma delete_session_frame:
  "sid' \<noteq> sid \<Longrightarrow>
   collections (snd (delete_session flt s sid)) (collection_name sid') =
     collections s (collection_name sid') \<and>
   temp_pdfs (snd (delete_session flt s sid)) (temp_pdf_path sid') =
     temp_pdfs s (temp_pdf_path sid')"
  by (auto simp: delete_session_eq split: option.splits)

lemma delete_session_shrinks:
  "(collections s k = None \<longrightarrow> collections (snd (delete_session flt s sid)) k = None) \<and>
   (temp_pdfs s p = None \<longrightarrow> temp_pdfs (snd (delete_session flt s sid)) p = None)"
  by (auto simp: delete_session_eq split: option.splits)

lemma delete_session_reclaims:
  "fst (delete_session flt s sid) = None \<Longrightarrow>
   collections (snd (delete_session flt s sid)) (collection_name sid) = None \<and>
   temp_pdfs (snd (delete_session flt s sid)) (temp_pdf_path sid) = None"
  by (auto simp: delete_session_eq split: option.splits if_splits)

lemma cleanup_loop_result:
  assumes "distinct (map fst xs)"
  shows "\<exists>s'. cleanup_loop flt xs count s =
            (count + int (length (filter (\<lambda>x. fst (delete_session flt s (fst x)) = None) xs)), s') \<and>
     sessions s' = filter (\<lambda>r. \<not> (session_id r \<in> fst ` set xs \<and>
                                  fst (delete_session flt s (session_id r)) = None)) (sessions s) \<and>
     (\<forall>k. collections s k = None \<longrightarrow> collections s' k = None) \<and>
     (\<forall>p. temp_pdfs s p = None \<longrightarrow> temp_pdfs s' p = None) \<and>
     set (printed s) \<subseteq> set (printed s') \<and>
     (\<forall>x\<in>set xs. fst (delete_session flt s (fst x)) = None \<longrightarrow>
         collections s' (collection_name (fst x)) = None \<and>
         temp_pdfs s' (temp_pdf_path (fst x)) = None \<and>
         Deleted_expired_session (fst x) \<in> set (printed s')) \<and>
     (\<forall>x\<in>set xs. \<forall>e. fst (delete_session flt s (fst x)) = Some e \<longrightarrow>
         Error_deleting_session (fst x) e \<in> set (printed s'))"
  using assms
proof (induction xs arbitrary: count s)
  case Nil
  then show ?case by simp
next
  case (Cons x xs)
  obtain r s1 where del: "delete_session flt s (fst x) = (r, s1)"
    by (cases "delete_session flt s (fst x)")
  define entry where "entry = (case r of None \<Rightarrow> Deleted_expired_session (fst x)
                                | Some e \<Rightarrow> Error_deleting_session (fst x) e)"
  define s2 where "s2 = s1\<lparr>printed := printed s1 @ [entry]\<rparr>"
  define count' where "count' = (case r of None \<Rightarrow> count + 1 | Some e \<Rightarrow> count)"
  have step: "cleanup_loop flt (x # xs) count s = cleanup_loop flt xs count' s2"
    using del by (simp add: entry_def s2_def count'_def split: option.splits)
  have notin: "fst x \<notin> fst ` set xs" and dist: "distinct (map fst xs)"
    using Cons.prems by auto
  have s1: "s1 = snd (delete_session flt s (fst x))" and r: "r = fst (delete_session flt s (fst x))"
    using del by simp_all
  have same: "fst (delete_session flt s2 sid) = fst (delete_session flt s sid)"
    if "sid \<noteq> fst x" for sid
  proof (rule delete_session_outcome_cong)
    have "temp_pdfs s2 (temp_pdf_path sid) = temp_pdfs s (temp_pdf_path sid)"
      using that delete_session_frame[of sid "fst x" flt s] by (simp add: s2_def s1)
    then show "(temp_pdfs s2 (temp_pdf_path sid) = None) = (temp_pdfs s (temp_pdf_path sid) = None)"
      by simp
  qed
  have same_xs: "fst (delete_session flt s2 (fst y)) = fst (delete_session flt s (fst y))"
    if "y \<in> set xs" for y
  proof -
    have "fst y \<in> fst ` set xs" using that by (rule imageI)
    with notin have "fst y \<noteq> fst x" by metis
    then show ?thesis by (rule same)
  qed
  have sess2: "sessions s2 =
      (if r = None then filter (\<lambda>r. session_id r \<noteq> fst x) (sessions s) else sessions s)"
    using delete_session_sessions[of flt s "fst x"] by (simp add: s2_def s1 r)
  have shrink2: "collections s k = None \<longrightarrow> collections s2 k = None"
    "temp_pdfs s p = None \<longrightarrow> temp_pdfs s2 p = None" for k p
    using delete_session_shrinks[of s k flt "fst x" p] by (simp_all add: s2_def s1)
  have printed2: "printed s2 = printed s @ [entry]"
    using delete_session_printed[of flt s "fst x"] by (simp add: s2_def s1)
  from Cons.IH[OF dist, of count' s2] obtain s' where
    run: "cleanup_loop flt xs count' s2 =
            (count' + int (length (filter (\<lambda>x. fst (delete_session flt s2 (fst x)) = None) xs)), s')"
    and sess: "sessions s' = filter (\<lambda>r. \<not> (session_id r \<in> fst ` set xs \<and>
                                  fst (delete_session flt s2 (session_id r)) = None)) (sessions s2)"
    and shrinkc: "\<forall>k. collections s2 k = None \<longrightarrow> collections s' k = None"
    and shrinkt: "\<forall>p. temp_pdfs s2 p = None \<longrightarrow> temp_pdfs s' p = None"
    and printed: "set (printed s2) \<subseteq> set (printed s')"
    and ok: "\<forall>x\<in>set xs. fst (delete_session flt s2 (fst x)) = None \<longrightarrow>
         collections s' (collection_name (fst x)) = None \<and>
         temp_pdfs s' (temp_pdf_path (fst x)) = None \<and>
         Deleted_expired_session (fst x) \<in> set (printed s')"
    and bad: "\<forall>x\<in>set xs. \<forall>e. fst (delete_session flt s2 (fst x)) = Some e \<longrightarrow>
         Error_deleting_session (fst x) e \<in> set (printed s')"
    by blast
  have filt: "filter (\<lambda>x. fst (delete_session flt s2 (fst x)) = None) xs =
              filter (\<lambda>x. fst (delete_session flt s (fst x)) = None) xs"
    by (rule filter_cong) (simp_all add: same_xs)
  have A: "cleanup_loop flt (x # xs) count s =
      (count + int (length (filter (\<lambda>x. fst (delete_session flt s (fst x)) = None) (x # xs))), s')"
  proof -
    have rr: "fst (delete_session flt s (fst x)) = r" using del by simp
    have cnt: "count' + int (length (filter (\<lambda>x. fst (delete_session flt s (fst x)) = None) xs)) =
        count + int (length (filter (\<lambda>x. fst (delete_session flt s (fst x)) = None) (x # xs)))"
      by (cases r) (simp_all add: count'_def rr)
    show ?thesis unfolding step run filt cnt ..
  qed
  have B: "sessions s' = filter (\<lambda>r. \<not> (session_id r \<in> fst ` set (x # xs) \<and>
                                  fst (delete_session flt s (session_id r)) = None)) (sessions s)"
  proof (cases r)
    case None
    have "sessions s' = filter (\<lambda>r. session_id r \<noteq> fst x \<and> \<not> (session_id r \<in> fst ` set xs \<and>
                fst (delete_session flt s2 (session_id r)) = None)) (sessions s)"
      using sess sess2 None by (simp add: conj_commute)
    also have "\<dots> = filter (\<lambda>r. \<not> (session_id r \<in> fst ` set (x # xs) \<and>
                                  fst (delete_session flt s (session_id r)) = None)) (sessions s)"
    proof (rule filter_cong[OF refl])
      fix row assume "row \<in> set (sessions s)"
      show "(session_id row \<noteq> fst x \<and> \<not> (session_id row \<in> fst ` set xs \<and>
                fst (delete_session flt s2 (session_id row)) = None)) =
            (\<not> (session_id row \<in> fst ` set (x # xs) \<and>
                fst (delete_session flt s (session_id row)) = None))"
      proof (cases "session_id row = fst x")
        case True
        then show ?thesis using None r by simp
      next
        case False
        then show ?thesis using same[OF False] by simp
      qed
    qed
    finally show ?thesis .
  next
    case (Some e)
    have "sessions s' = filter (\<lambda>r. \<not> (session_id r \<in> fst ` set xs \<and>
                fst (delete_session flt s2 (session_id r)) = None)) (sessions s)"
      using sess sess2 Some by simp
    also have "\<dots> = filter (\<lambda>r. \<not> (session_id r \<in> fst ` set (x # xs) \<and>
                                  fst (delete_session flt s (session_id r)) = None)) (sessions s)"
    proof (rule filter_cong[OF refl])
      fix row assume "row \<in> set (sessions s)"
      show "(\<not> (session_id row \<in> fst ` set xs \<and>
                fst (delete_session flt s2 (session_id row)) = None)) =
            (\<not> (session_id row \<in> fst ` set (x # xs) \<and>
                fst (delete_session flt s (session_id row)) = None))"
      proof (cases "session_id row = fst x")
        case True
        then show ?thesis using Some r notin by simp
      next
        case False
        then show ?thesis using same[OF False] by simp
      qed
    qed
    finally show ?thesis .
  qed
  have C: "\<forall>k. collections s k = None \<longrightarrow> collections s' k = None"
    using shrink2(1) shrinkc by blast
  have D: "\<forall>p. temp_pdfs s p = None \<longrightarrow> temp_pdfs s' p = None"
    using shrink2(2) shrinkt by blast
  have E: "set (printed s) \<subseteq> set (printed s')" using printed printed2 by auto
  have entry_in: "entry \<in> set (printed s')" using printed printed2 by auto
  have F: "\<forall>y\<in>set (x # xs). fst (delete_session flt s (fst y)) = None \<longrightarrow>
         collections s' (collection_name (fst y)) = None \<and>
         temp_pdfs s' (temp_pdf_path (fst y)) = None \<and>
         Deleted_expired_session (fst y) \<in> set (printed s')"
  proof (intro ballI impI)
    fix y assume y: "y \<in> set (x # xs)" and oky: "fst (delete_session flt s (fst y)) = None"
    show "collections s' (collection_name (fst y)) = None \<and>
         temp_pdfs s' (temp_pdf_path (fst y)) = None \<and>
         Deleted_expired_session (fst y) \<in> set (printed s')"
    proof (cases "fst y = fst x")
      case True
      then have rn: "r = None" using oky r by simp
      have "collections s2 (collection_name (fst x)) = None \<and>
            temp_pdfs s2 (temp_pdf_path (fst x)) = None"
        using delete_session_reclaims[of flt s "fst x"] rn r by (simp add: s2_def s1)
      moreover have "entry = Deleted_expired_session (fst x)" using rn by (simp add: entry_def)
      ultimately show ?thesis using True shrinkc shrinkt entry_in by auto
    next
      case False
      then have "y \<in> set xs" using y by auto
      then show ?thesis using ok oky same_xs by auto
    qed
  qed
  have G: "\<forall>y\<in>set (x # xs). \<forall>e. fst (delete_session flt s (fst y)) = Some e \<longrightarrow>
         Error_deleting_session (fst y) e \<in> set (printed s')"
  proof (intro ballI allI impI)
    fix y e assume y: "y \<in> set (x # xs)" and fails: "fst (delete_session flt s (fst y)) = Some e"
    show "Error_deleting_session (fst y) e \<in> set (printed s')"
    proof (cases "fst y = fst x")
      case True
      then have "r = Some e" using fails r by simp
      then have "entry = Error_deleting_session (fst x) e" by (simp add: entry_def)
      then show ?thesis using True entry_in by simp
    next
      case False
      then have "y \<in> set xs" using y by auto
      then show ?thesis using bad fails same_xs by auto
    qed
  qed
  from A B C D E F G show ?case by blast
qed

lemma register_session_distinct:
  "distinct (map session_id db) \<Longrightarrow>
   distinct (map session_id (register_session now db sid name))"
  by (auto simp: register_session_def distinct_map_filter)

lemma update_session_access_ids:
  "map session_id (update_session_access now db sid) = map session_id db"
  by (simp add: update_session_access_def o_def)

lemma expired_ids:
  "map fst (get_expired_sessions now db) =
     map session_id (filter (\<lambda>r. sqlite_text_less (last_accessed r)
        (isoformat (now - SESSION_EXPIRY_MINUTES * 60000000))) db)"
  by (simp add: get_expired_sessions_def Let_def o_def)

lemma expired_row:
  assumes "distinct (map session_id db)" "r \<in> set db"
  shows "session_id r \<in> fst ` set (get_expired_sessions now db) \<longleftrightarrow>
         sqlite_text_less (last_accessed r) (isoformat (now - SESSION_EXPIRY_MINUTES * 60000000))"
proof -
  let ?ex = "\<lambda>r. sqlite_text_less (last_accessed r)
        (isoformat (now - SESSION_EXPIRY_MINUTES * 60000000))"
  have inj: "inj_on session_id (set db)" using assms(1) by (simp add: distinct_map)
  have "fst ` set (get_expired_sessions now db) = session_id ` set (filter ?ex db)"
    using expired_ids[of now db] by (metis set_map)
  moreover have "session_id r \<in> session_id ` set (filter ?ex db) \<longleftrightarrow> ?ex r"
  proof
    assume "session_id r \<in> session_id ` set (filter ?ex db)"
    then obtain r' where r': "r' \<in> set db" "?ex r'" "session_id r' = session_id r" by auto
    with inj assms(2) have "r' = r" by (auto dest: inj_onD)
    with r' show "?ex r" by simp
  next
    assume "?ex r"
    with assms(2) show "session_id r \<in> session_id ` set (filter ?ex db)" by auto
  qed
  ultimately show ?thesis by simp
qed

lemma sqlite_text_less_common_prefix:
  "sqlite_text_less (d @ xs) (d @ ys) = sqlite_text_less xs ys"
  by (induction d) simp_all

lemma same_day_is_expired:
  "date_str t = date_str t' \<Longrightarrow> sqlite_text_less (CURRENT_TIMESTAMP t) (isoformat t')"
  by (simp add: CURRENT_TIMESTAMP_def isoformat_def sqlite_text_less_common_prefix)

lemma stamp_noon: "CURRENT_TIMESTAMP 1704110400000000 = ''2024-01-01 12:00:00''"
  by code_simp

lemma expiry_1159:
  "isoformat (1704112140000000 - SESSION_EXPIRY_MINUTES * 60000000) = ''2024-01-01T11:59:00''"
  by code_simp

lemma expiry_2350:
  "isoformat (1704154800000000 - SESSION_EXPIRY_MINUTES * 60000000) = ''2024-01-01T23:50:00''"
  by code_simp

section \<open>Claims about the registry and the sweeper\<close>

text \<open>
  Claim C4. In a sweep over a registry with distinct session ids, a teardown that raises
  is printed as an error and the loop goes on: the returned count is the number of
  expired sessions whose teardown raised nothing, which is the number of rows the sweep
  removed; such a session has no row, no collection and no temporary file afterwards.
  A session whose teardown raised keeps its row as it was, the row being deleted only
  by the last step of the teardown, so the session is again among the expired sessions
  of the registry the sweep leaves behind.
\<close>

theorem sweep_continues_after_failure:
  assumes "distinct (map session_id (sessions s))"
    and "cleanup_expired_sessions flt now s = (count, s')"
  shows "count = int (length (filter (\<lambda>x. fst (delete_session flt s (fst x)) = None)
                                (get_expired_sessions now (sessions s)))) \<and>
         count = int (length (sessions s)) - int (length (sessions s')) \<and>
         sessions s' = filter (\<lambda>r. \<not> (session_id r \<in> fst ` set (get_expired_sessions now (sessions s)) \<and>
                                       fst (delete_session flt s (session_id r)) = None)) (sessions s) \<and>
         (\<forall>x\<in>set (get_expired_sessions now (sessions s)).
            (fst (delete_session flt s (fst x)) = None \<longrightarrow>
               fst x \<notin> session_id ` set (sessions s') \<and>
               collections s' (collection_name (fst x)) = None \<and>
               temp_pdfs s' (temp_pdf_path (fst x)) = None \<and>
               Deleted_expired_session (fst x) \<in> set (printed s')) \<and>
            (\<forall>e. fst (delete_session flt s (fst x)) = Some e \<longrightarrow>
               Error_deleting_session (fst x) e \<in> set (printed s') \<and>
               x \<in> set (get_expired_sessions now (sessions s'))))"
proof -
  let ?ex = "\<lambda>r. sqlite_text_less (last_accessed r)
        (isoformat (now - SESSION_EXPIRY_MINUTES * 60000000))"
  let ?f = "\<lambda>r. (session_id r, pdf_filename r)"
  let ?xs = "get_expired_sessions now (sessions s)"
  let ?ok = "\<lambda>sid. fst (delete_session flt s sid) = None"
  have xs: "?xs = map ?f (filter ?ex (sessions s))"
    by (simp add: get_expired_sessions_def Let_def)
  have dist: "distinct (map fst ?xs)"
    unfolding expired_ids using assms(1) by (rule distinct_map_filter)
  from cleanup_loop_result[OF dist, of flt 0 s] obtain s0 where
    run: "cleanup_loop flt ?xs 0 s = (0 + int (length (filter (\<lambda>x. ?ok (fst x)) ?xs)), s0)"
    and sess: "sessions s0 = filter (\<lambda>r. \<not> (session_id r \<in> fst ` set ?xs \<and> ?ok (session_id r)))
                 (sessions s)"
    and printed: "set (printed s) \<subseteq> set (printed s0)"
    and ok: "\<forall>x\<in>set ?xs. ?ok (fst x) \<longrightarrow>
         collections s0 (collection_name (fst x)) = None \<and>
         temp_pdfs s0 (temp_pdf_path (fst x)) = None \<and>
         Deleted_expired_session (fst x) \<in> set (printed s0)"
    and bad: "\<forall>x\<in>set ?xs. \<forall>e. fst (delete_session flt s (fst x)) = Some e \<longrightarrow>
         Error_deleting_session (fst x) e \<in> set (printed s0)"
    by blast
  define n where "n = int (length (filter (\<lambda>x. ?ok (fst x)) ?xs))"
  have run': "cleanup_loop flt ?xs 0 s = (n, s0)" using run by (simp add: n_def)
  have full: "cleanup_expired_sessions flt now s =
          (n, if n > 0 then s0\<lparr>printed := printed s0 @ [Cleaned_up n]\<rparr> else s0)"
    unfolding cleanup_expired_sessions_def run' by simp
  have eq: "(count, s') =
          (n, if n > 0 then s0\<lparr>printed := printed s0 @ [Cleaned_up n]\<rparr> else s0)"
    using assms(2)[symmetric] full by (rule trans)
  have cn: "count = n" using eq by (rule Pair_inject)
  have "s' = (if n > 0 then s0\<lparr>printed := printed s0 @ [Cleaned_up n]\<rparr> else s0)"
    using eq by (rule Pair_inject)
  then have s': "s' = (if count > 0 then s0\<lparr>printed := printed s0 @ [Cleaned_up count]\<rparr> else s0)"
    by (simp only: cn)
  from cn have count: "count = int (length (filter (\<lambda>x. ?ok (fst x)) ?xs))" by (simp add: n_def)
  from s' have same: "sessions s' = sessions s0" "collections s' = collections s0"
    "temp_pdfs s' = temp_pdfs s0" and pr: "set (printed s0) \<subseteq> set (printed s')"
    by (auto split: if_splits)
  have B: "sessions s' = filter (\<lambda>r. \<not> (session_id r \<in> fst ` set ?xs \<and> ?ok (session_id r)))
                 (sessions s)"
    using sess same by simp
  have pointwise: "(session_id r \<in> fst ` set ?xs \<and> ?ok (session_id r)) =
                   (?ex r \<and> ?ok (session_id r))" if "r \<in> set (sessions s)" for r
    using expired_row[OF assms(1) that, of now] by simp
  have "length (filter (\<lambda>x. ?ok (fst x)) ?xs) =
        length (filter (\<lambda>r. ?ex r \<and> ?ok (session_id r)) (sessions s))"
    unfolding xs by (simp add: filter_map o_def conj_commute)
  also have "\<dots> = length (filter (\<lambda>r. session_id r \<in> fst ` set ?xs \<and> ?ok (session_id r))
                        (sessions s))"
    by (intro arg_cong[where f = length] filter_cong refl) (simp add: pointwise)
  finally have removed: "length (filter (\<lambda>x. ?ok (fst x)) ?xs) =
      length (filter (\<lambda>r. session_id r \<in> fst ` set ?xs \<and> ?ok (session_id r)) (sessions s))" .
  have "length (filter (\<lambda>r. session_id r \<in> fst ` set ?xs \<and> ?ok (session_id r)) (sessions s)) +
        length (sessions s') = length (sessions s)"
    unfolding B by (rule sum_length_filter_compl)
  with removed count have C: "count = int (length (sessions s)) - int (length (sessions s'))"
    by linarith
  have D: "fst x \<notin> session_id ` set (sessions s') \<and>
           collections s' (collection_name (fst x)) = None \<and>
           temp_pdfs s' (temp_pdf_path (fst x)) = None \<and>
           Deleted_expired_session (fst x) \<in> set (printed s')"
    if "x \<in> set ?xs" "?ok (fst x)" for x
  proof -
    have mem: "fst x \<in> fst ` set ?xs" using that(1) by (rule imageI)
    have "fst x \<notin> session_id ` set (sessions s')"
    proof
      assume "fst x \<in> session_id ` set (sessions s')"
      then obtain r where "r \<in> set (sessions s')" "session_id r = fst x" by auto
      then show False using mem that(2) unfolding B by simp
    qed
    then show ?thesis using ok that same pr by auto
  qed
  have E: "Error_deleting_session (fst x) e \<in> set (printed s') \<and>
           x \<in> set (get_expired_sessions now (sessions s'))"
    if "x \<in> set ?xs" "fst (delete_session flt s (fst x)) = Some e" for x e
  proof -
    from that(1) obtain r where r: "r \<in> set (sessions s)" "?ex r" "x = ?f r"
      unfolding xs by auto
    have "\<not> ?ok (session_id r)" using that(2) r by simp
    then have "r \<in> set (sessions s')" using r unfolding B by simp
    then have "?f r \<in> set (get_expired_sessions now (sessions s'))"
      using r(2) by (simp add: get_expired_sessions_def Let_def)
    moreover have "Error_deleting_session (fst x) e \<in> set (printed s0)"
      using bad that by blast
    then have "Error_deleting_session (fst x) e \<in> set (printed s')" using pr by blast
    ultimately show ?thesis using r(3) by simp
  qed
  have F: "\<forall>x\<in>set ?xs.
            (fst (delete_session flt s (fst x)) = None \<longrightarrow>
               fst x \<notin> session_id ` set (sessions s') \<and>
               collections s' (collection_name (fst x)) = None \<and>
               temp_pdfs s' (temp_pdf_path (fst x)) = None \<and>
               Deleted_expired_session (fst x) \<in> set (printed s')) \<and>
            (\<forall>e. fst (delete_session flt s (fst x)) = Some e \<longrightarrow>
               Error_deleting_session (fst x) e \<in> set (printed s') \<and>
               x \<in> set (get_expired_sessions now (sessions s')))"
  proof (rule ballI, rule conjI)
    fix x assume x: "x \<in> set ?xs"
    show "fst (delete_session flt s (fst x)) = None \<longrightarrow>
               fst x \<notin> session_id ` set (sessions s') \<and>
               collections s' (collection_name (fst x)) = None \<and>
               temp_pdfs s' (temp_pdf_path (fst x)) = None \<and>
               Deleted_expired_session (fst x) \<in> set (printed s')"
      using D[OF x] by blast
    show "\<forall>e. fst (delete_session flt s (fst x)) = Some e \<longrightarrow>
               Error_deleting_session (fst x) e \<in> set (printed s') \<and>
               x \<in> set (get_expired_sessions now (sessions s'))"
      using E[OF x] by blast
  qed
  show ?thesis
    apply (rule conjI, rule count)
    apply (rule conjI, rule C)
    apply (rule conjI, rule B)
    apply (rule F)
    done
qed

theorem sweep_continues_after_failure_witness:
  "distinct (map session_id (sessions \<lparr>collections = [''session_s1'' \<mapsto> [], ''session_s2'' \<mapsto> []],
       temp_pdfs = [''temp_pdfs/s1.pdf'' \<mapsto> ''%PDF'', ''temp_pdfs/s2.pdf'' \<mapsto> ''%PDF''],
       sessions =
         [\<lparr>session_id = ''s1'', created_at = ''2024-01-01 12:00:00'',
           last_accessed = ''2024-01-01 12:00:00'', pdf_filename = Some ''a.pdf''\<rparr>,
          \<lparr>session_id = ''s2'', created_at = ''2024-01-01 12:00:00'',
           last_accessed = ''2024-01-01 12:00:00'', pdf_filename = Some ''b.pdf''\<rparr>,
          \<lparr>session_id = ''s3'', created_at = ''2024-01-02 00:10:00'',
           last_accessed = ''2024-01-02 00:10:00'', pdf_filename = Some ''c.pdf''\<rparr>],
       printed = []\<rparr>)) \<and>
   get_expired_sessions 1704154800000000 (sessions \<lparr>collections = [''session_s1'' \<mapsto> [], ''session_s2'' \<mapsto> []],
       temp_pdfs = [''temp_pdfs/s1.pdf'' \<mapsto> ''%PDF'', ''temp_pdfs/s2.pdf'' \<mapsto> ''%PDF''],
       sessions =
         [\<lparr>session_id = ''s1'', created_at = ''2024-01-01 12:00:00'',
           last_accessed = ''2024-01-01 12:00:00'', pdf_filename = Some ''a.pdf''\<rparr>,
          \<lparr>session_id = ''s2'', created_at = ''2024-01-01 12:00:00'',
           last_accessed = ''2024-01-01 12:00:00'', pdf_filename = Some ''b.pdf''\<rparr>,
          \<lparr>session_id = ''s3'', created_at = ''2024-01-02 00:10:00'',
           last_accessed = ''2024-01-02 00:10:00'', pdf_filename = Some ''c.pdf''\<rparr>],
       printed = []\<rparr>) =
     [(''s1'', Some ''a.pdf''), (''s2'', Some ''b.pdf'')] \<and>
   fst (delete_session (\<lambda>st sid. if st = Unlink_pdf \<and> sid = ''s1'' then Some ''permission denied'' else None) \<lparr>collections = [''session_s1'' \<mapsto> [], ''session_s2'' \<mapsto> []],
       temp_pdfs = [''temp_pdfs/s1.pdf'' \<mapsto> ''%PDF'', ''temp_pdfs/s2.pdf'' \<mapsto> ''%PDF''],
       sessions =
         [\<lparr>session_id = ''s1'', created_at = ''2024-01-01 12:00:00'',
           last_accessed = ''2024-01-01 12:00:00'', pdf_filename = Some ''a.pdf''\<rparr>,
          \<lparr>session_id = ''s2'', created_at = ''2024-01-01 12:00:00'',
           last_accessed = ''2024-01-01 12:00:00'', pdf_filename = Some ''b.pdf''\<rparr>,
          \<lparr>session_id = ''s3'', created_at = ''2024-01-02 00:10:00'',
           last_accessed = ''2024-01-02 00:10:00'', pdf_filename = Some ''c.pdf''\<rparr>],
       printed = []\<rparr> ''s1'') = Some (Unavailable ''permission denied'') \<and>
   fst (delete_session (\<lambda>st sid. if st = Unlink_pdf \<and> sid = ''s1'' then Some ''permission denied'' else None) \<lparr>collections = [''session_s1'' \<mapsto> [], ''session_s2'' \<mapsto> []],
       temp_pdfs = [''temp_pdfs/s1.pdf'' \<mapsto> ''%PDF'', ''temp_pdfs/s2.pdf'' \<mapsto> ''%PDF''],
       sessions =
         [\<lparr>session_id = ''s1'', created_at = ''2024-01-01 12:00:00'',
           last_accessed = ''2024-01-01 12:00:00'', pdf_filename = Some ''a.pdf''\<rparr>,
          \<lparr>session_id = ''s2'', created_at = ''2024-01-01 12:00:00'',
           last_accessed = ''2024-01-01 12:00:00'', pdf_filename = Some ''b.pdf''\<rparr>,
          \<lparr>session_id = ''s3'', created_at = ''2024-01-02 00:10:00'',
           last_accessed = ''2024-01-02 00:10:00'', pdf_filename = Some ''c.pdf''\<rparr>],
       printed = []\<rparr> ''s2'') = None \<and>
   fst (cleanup_expired_sessions (\<lambda>st sid. if st = Unlink_pdf \<and> sid = ''s1'' then Some ''permission denied'' else None) 1704154800000000 \<lparr>collections = [''session_s1'' \<mapsto> [], ''session_s2'' \<mapsto> []],
       temp_pdfs = [''temp_pdfs/s1.pdf'' \<mapsto> ''%PDF'', ''temp_pdfs/s2.pdf'' \<mapsto> ''%PDF''],
       sessions =
         [\<lparr>session_id = ''s1'', created_at = ''2024-01-01 12:00:00'',
           last_accessed = ''2024-01-01 12:00:00'', pdf_filename = Some ''a.pdf''\<rparr>,
          \<lparr>session_id = ''s2'', created_at = ''2024-01-01 12:00:00'',
           last_accessed = ''2024-01-01 12:00:00'', pdf_filename = Some ''b.pdf''\<rparr>,
          \<lparr>session_id = ''s3'', created_at = ''2024-01-02 00:10:00'',
           last_accessed = ''2024-01-02 00:10:00'', pdf_filename = Some ''c.pdf''\<rparr>],
       printed = []\<rparr>) = 1 \<and>
   map session_id (sessions (snd (cleanup_expired_sessions (\<lambda>st sid. if st = Unlink_pdf \<and> sid = ''s1'' then Some ''permission denied'' else None) 1704154800000000 \<lparr>collections = [''session_s1'' \<mapsto> [], ''session_s2'' \<mapsto> []],
       temp_pdfs = [''temp_pdfs/s1.pdf'' \<mapsto> ''%PDF'', ''temp_pdfs/s2.pdf'' \<mapsto> ''%PDF''],
       sessions =
         [\<lparr>session_id = ''s1'', created_at = ''2024-01-01 12:00:00'',
           last_accessed = ''2024-01-01 12:00:00'', pdf_filename = Some ''a.pdf''\<rparr>,
          \<lparr>session_id = ''s2'', created_at = ''2024-01-01 12:00:00'',
           last_accessed = ''2024-01-01 12:00:00'', pdf_filename = Some ''b.pdf''\<rparr>,
          \<lparr>session_id = ''s3'', created_at = ''2024-01-02 00:10:00'',
           last_accessed = ''2024-01-02 00:10:00'', pdf_filename = Some ''c.pdf''\<rparr>],
       printed = []\<rparr>))) =
     [''s1'', ''s3''] \<and>
   printed (snd (cleanup_expired_sessions (\<lambda>st sid. if st = Unlink_pdf \<and> sid = ''s1'' then Some ''permission denied'' else None) 1704154800000000 \<lparr>collections = [''session_s1'' \<mapsto> [], ''session_s2'' \<mapsto> []],
       temp_pdfs = [''temp_pdfs/s1.pdf'' \<mapsto> ''%PDF'', ''temp_pdfs/s2.pdf'' \<mapsto> ''%PDF''],
       sessions =
         [\<lparr>session_id = ''s1'', created_at = ''2024-01-01 12:00:00'',
           last_accessed = ''2024-01-01 12:00:00'', pdf_filename = Some ''a.pdf''\<rparr>,
          \<lparr>session_id = ''s2'', created_at = ''2024-01-01 12:00:00'',
           last_accessed = ''2024-01-01 12:00:00'', pdf_filename = Some ''b.pdf''\<rparr>,
          \<lparr>session_id = ''s3'', created_at = ''2024-01-02 00:10:00'',
           last_accessed = ''2024-01-02 00:10:00'', pdf_filename = Some ''c.pdf''\<rparr>],
       printed = []\<rparr>)) =
     [Error_deleting_session ''s1'' (Unavailable ''permission denied''),
      Deleted_expired_session ''s2'', Cleaned_up 1] \<and>
   fst (cleanup_expired_sessions (\<lambda>st sid. if st = Unlink_pdf \<and> sid = ''s1'' then Some ''permission denied'' else None) 1704154800000000 \<lparr>collections = [''session_s1'' \<mapsto> [], ''session_s2'' \<mapsto> []],
       temp_pdfs = [''temp_pdfs/s1.pdf'' \<mapsto> ''%PDF'', ''temp_pdfs/s2.pdf'' \<mapsto> ''%PDF''],
       sessions =
         [\<lparr>session_id = ''s1'', created_at = ''2024-01-01 12:00:00'',
           last_accessed = ''2024-01-01 12:00:00'', pdf_filename = Some ''a.pdf''\<rparr>,
          \<lparr>session_id = ''s2'', created_at = ''2024-01-01 12:00:00'',
           last_accessed = ''2024-01-01 12:00:00'', pdf_filename = Some ''b.pdf''\<rparr>,
          \<lparr>session_id = ''s3'', created_at = ''2024-01-02 00:10:00'',
           last_accessed = ''2024-01-02 00:10:00'', pdf_filename = Some ''c.pdf''\<rparr>],
       printed = []\<rparr>) =
     int (length (sessions \<lparr>collections = [''session_s1'' \<mapsto> [], ''session_s2'' \<mapsto> []],
       temp_pdfs = [''temp_pdfs/s1.pdf'' \<mapsto> ''%PDF'', ''temp_pdfs/s2.pdf'' \<mapsto> ''%PDF''],
       sessions =
         [\<lparr>session_id = ''s1'', created_at = ''2024-01-01 12:00:00'',
           last_accessed = ''2024-01-01 12:00:00'', pdf_filename = Some ''a.pdf''\<rparr>,
          \<lparr>session_id = ''s2'', created_at = ''2024-01-01 12:00:00'',
           last_accessed = ''2024-01-01 12:00:00'', pdf_filename = Some ''b.pdf''\<rparr>,
          \<lparr>session_id = ''s3'', created_at = ''2024-01-02 00:10:00'',
           last_accessed = ''2024-01-02 00:10:00'', pdf_filename = Some ''c.pdf''\<rparr>],
       printed = []\<rparr>)) -
     int (length (sessions (snd (cleanup_expired_sessions (\<lambda>st sid. if st = Unlink_pdf \<and> sid = ''s1'' then Some ''permission denied'' else None) 1704154800000000 \<lparr>collections = [''session_s1'' \<mapsto> [], ''session_s2'' \<mapsto> []],
       temp_pdfs = [''temp_pdfs/s1.pdf'' \<mapsto> ''%PDF'', ''temp_pdfs/s2.pdf'' \<mapsto> ''%PDF''],
       sessions =
         [\<lparr>session_id = ''s1'', created_at = ''2024-01-01 12:00:00'',
           last_accessed = ''2024-01-01 12:00:00'', pdf_filename = Some ''a.pdf''\<rparr>,
          \<lparr>session_id = ''s2'', created_at = ''2024-01-01 12:00:00'',
           last_accessed = ''2024-01-01 12:00:00'', pdf_filename = Some ''b.pdf''\<rparr>,
          \<lparr>session_id = ''s3'', created_at = ''2024-01-02 00:10:00'',
           last_accessed = ''2024-01-02 00:10:00'', pdf_filename = Some ''c.pdf''\<rparr>],
       printed = []\<rparr>)))) \<and>
   (''s1'', Some ''a.pdf'') \<in> set (get_expired_sessions 1704154800000000
       (sessions (snd (cleanup_expired_sessions (\<lambda>st sid. if st = Unlink_pdf \<and> sid = ''s1'' then Some ''permission denied'' else None) 1704154800000000 \<lparr>collections = [''session_s1'' \<mapsto> [], ''session_s2'' \<mapsto> []],
       temp_pdfs = [''temp_pdfs/s1.pdf'' \<mapsto> ''%PDF'', ''temp_pdfs/s2.pdf'' \<mapsto> ''%PDF''],
       sessions =
         [\<lparr>session_id = ''s1'', created_at = ''2024-01-01 12:00:00'',
           last_accessed = ''2024-01-01 12:00:00'', pdf_filename = Some ''a.pdf''\<rparr>,
          \<lparr>session_id = ''s2'', created_at = ''2024-01-01 12:00:00'',
           last_accessed = ''2024-01-01 12:00:00'', pdf_filename = Some ''b.pdf''\<rparr>,
          \<lparr>session_id = ''s3'', created_at = ''2024-01-02 00:10:00'',
           last_accessed = ''2024-01-02 00:10:00'', pdf_filename = Some ''c.pdf''\<rparr>],
       printed = []\<rparr>)))) \<and>
   collections (snd (cleanup_expired_sessions (\<lambda>st sid. if st = Unlink_pdf \<and> sid = ''s1'' then Some ''permission denied'' else None) 1704154800000000 \<lparr>collections = [''session_s1'' \<mapsto> [], ''session_s2'' \<mapsto> []],
       temp_pdfs = [''temp_pdfs/s1.pdf'' \<mapsto> ''%PDF'', ''temp_pdfs/s2.pdf'' \<mapsto> ''%PDF''],
       sessions =
         [\<lparr>session_id = ''s1'', created_at = ''2024-01-01 12:00:00'',
           last_accessed = ''2024-01-01 12:00:00'', pdf_filename = Some ''a.pdf''\<rparr>,
          \<lparr>session_id = ''s2'', created_at = ''2024-01-01 12:00:00'',
           last_accessed = ''2024-01-01 12:00:00'', pdf_filename = Some ''b.pdf''\<rparr>,
          \<lparr>session_id = ''s3'', created_at = ''2024-01-02 00:10:00'',
           last_accessed = ''2024-01-02 00:10:00'', pdf_filename = Some ''c.pdf''\<rparr>],
       printed = []\<rparr>))
     (collection_name ''s2'') = None \<and>
   temp_pdfs (snd (cleanup_expired_sessions (\<lambda>st sid. if st = Unlink_pdf \<and> sid = ''s1'' then Some ''permission denied'' else None) 1704154800000000 \<lparr>collections = [''session_s1'' \<mapsto> [], ''session_s2'' \<mapsto> []],
       temp_pdfs = [''temp_pdfs/s1.pdf'' \<mapsto> ''%PDF'', ''temp_pdfs/s2.pdf'' \<mapsto> ''%PDF''],
       sessions =
         [\<lparr>session_id = ''s1'', created_at = ''2024-01-01 12:00:00'',
           last_accessed = ''2024-01-01 12:00:00'', pdf_filename = Some ''a.pdf''\<rparr>,
          \<lparr>session_id = ''s2'', created_at = ''2024-01-01 12:00:00'',
           last_accessed = ''2024-01-01 12:00:00'', pdf_filename = Some ''b.pdf''\<rparr>,
          \<lparr>session_id = ''s3'', created_at = ''2024-01-02 00:10:00'',
           last_accessed = ''2024-01-02 00:10:00'', pdf_filename = Some ''c.pdf''\<rparr>],
       printed = []\<rparr>))
     (temp_pdf_path ''s2'') = None"
proof -
  let ?s = "\<lparr>collections = [''session_s1'' \<mapsto> [], ''session_s2'' \<mapsto> []],
       temp_pdfs = [''temp_pdfs/s1.pdf'' \<mapsto> ''%PDF'', ''temp_pdfs/s2.pdf'' \<mapsto> ''%PDF''],
       sessions =
         [\<lparr>session_id = ''s1'', created_at = ''2024-01-01 12:00:00'',
           last_accessed = ''2024-01-01 12:00:00'', pdf_filename = Some ''a.pdf''\<rparr>,
          \<lparr>session_id = ''s2'', created_at = ''2024-01-01 12:00:00'',
           last_accessed = ''2024-01-01 12:00:00'', pdf_filename = Some ''b.pdf''\<rparr>,
          \<lparr>session_id = ''s3'', created_at = ''2024-01-02 00:10:00'',
           last_accessed = ''2024-01-02 00:10:00'', pdf_filename = Some ''c.pdf''\<rparr>],
       printed = []\<rparr>"
  let ?f = "(\<lambda>st sid. if st = Unlink_pdf \<and> sid = ''s1'' then Some ''permission denied'' else None)"
  let ?r = "cleanup_expired_sessions ?f 1704154800000000 ?s"
  have h1: "distinct (map session_id (sessions ?s))" by simp
  have h2: "?r = (fst ?r, snd ?r)" by simp
  have xs: "get_expired_sessions 1704154800000000 (sessions ?s) =
      [(''s1'', Some ''a.pdf''), (''s2'', Some ''b.pdf'')]"
    by (simp add: get_expired_sessions_def expiry_2350)
  have d1: "fst (delete_session ?f ?s ''s1'') = Some (Unavailable ''permission denied'')"
    by (simp add: delete_session_eq temp_pdf_path_def)
  have d2: "fst (delete_session ?f ?s ''s2'') = None"
    by (simp add: delete_session_eq temp_pdf_path_def)
  have v1: "fst ?r = 1"
    by (simp add: cleanup_expired_sessions_def get_expired_sessions_def expiry_2350
        delete_session_eq temp_pdf_path_def collection_name_def)
  have v2: "map session_id (sessions (snd ?r)) = [''s1'', ''s3'']"
    by (simp add: cleanup_expired_sessions_def get_expired_sessions_def expiry_2350
        delete_session_eq temp_pdf_path_def collection_name_def)
  have v3: "printed (snd ?r) =
     [Error_deleting_session ''s1'' (Unavailable ''permission denied''),
      Deleted_expired_session ''s2'', Cleaned_up 1]"
    by (simp add: cleanup_expired_sessions_def get_expired_sessions_def expiry_2350
        delete_session_eq temp_pdf_path_def collection_name_def)
  have m1: "(''s1'', Some ''a.pdf'') \<in> set (get_expired_sessions 1704154800000000 (sessions ?s))"
    and m2: "(''s2'', Some ''b.pdf'') \<in> set (get_expired_sessions 1704154800000000 (sessions ?s))"
    unfolding xs by simp_all
  note main = sweep_continues_after_failure[OF h1 h2]
  from main have c: "fst ?r = int (length (sessions ?s)) - int (length (sessions (snd ?r)))"
    by blast
  from main have per: "\<forall>x\<in>set (get_expired_sessions 1704154800000000 (sessions ?s)).
            (fst (delete_session ?f ?s (fst x)) = None \<longrightarrow>
               fst x \<notin> session_id ` set (sessions (snd ?r)) \<and>
               collections (snd ?r) (collection_name (fst x)) = None \<and>
               temp_pdfs (snd ?r) (temp_pdf_path (fst x)) = None \<and>
               Deleted_expired_session (fst x) \<in> set (printed (snd ?r))) \<and>
            (\<forall>e. fst (delete_session ?f ?s (fst x)) = Some e \<longrightarrow>
               Error_deleting_session (fst x) e \<in> set (printed (snd ?r)) \<and>
               x \<in> set (get_expired_sessions 1704154800000000 (sessions (snd ?r))))"
    by blast
  from per m1 d1 have r1: "(''s1'', Some ''a.pdf'') \<in>
      set (get_expired_sessions 1704154800000000 (sessions (snd ?r)))"
    by (metis fst_conv)
  from per m2 d2 have r2: "collections (snd ?r) (collection_name ''s2'') = None \<and>
      temp_pdfs (snd ?r) (temp_pdf_path ''s2'') = None"
    by (metis fst_conv)
  from h1 xs d1 d2 v1 v2 v3 c r1 r2 show ?thesis by (intro conjI) blast+
qed

text \<open>
  Claim C5, evaluated where it fails. \<open>last_accessed\<close> holds the text of
  \<open>CURRENT_TIMESTAMP\<close>, with a space between date and time; the expiry time is passed
  as \<open>isoformat()\<close>, with the letter T there. SQLite compares the two as text, and a
  space is smaller than T: a session whose last access is on the same UTC day as the
  expiry time is reported as expired whatever its time of day (lemma
  \<open>same_day_is_expired\<close>). A session last accessed at 12:00:00 is returned by a sweep
  at 12:29:00, 29 minutes later.
\<close>

theorem get_expired_sessions_after_29_minutes:
  "CURRENT_TIMESTAMP 1704110400000000 = ''2024-01-01 12:00:00'' \<and>
   1704112140000000 - 1704110400000000 = (29 * 60000000 :: int) \<and>
   isoformat (1704112140000000 - SESSION_EXPIRY_MINUTES * 60000000) = ''2024-01-01T11:59:00'' \<and>
   get_expired_sessions 1704112140000000
     (register_session 1704110400000000 [] ''s1'' (Some ''cv.pdf'')) =
     [(''s1'', Some ''cv.pdf'')]"
  by (simp add: get_expired_sessions_def register_session_def stamp_noon expiry_1159)

section \<open>Properties of the upload endpoint\<close>

lemma upload_after_write:
  assumes "filename file \<noteq> []"
    and "endswith (map lower_char (filename file)) ''.pdf''"
    and "content_type file = [] \<or> content_type file = ''application/pdf''"
    and "length (contents file) \<le> MAX_FILE_SIZE"
    and "contents file \<noteq> []"
    and "fault e Write_pdf (new_session_id e) = None"
  shows "upload_pdf e s file =
     (case ingest e (s\<lparr>temp_pdfs := (temp_pdfs s)(temp_pdf_path (new_session_id e) \<mapsto> contents file)\<rparr>)
             file (new_session_id e) of
        None \<Rightarrow> None
      | Some (Inr response, s') \<Rightarrow> Some (Inr response, s')
      | Some (Inl (Http err), s') \<Rightarrow> Some (Inl (Http err), s')
      | Some (Inl (Other err), s') \<Rightarrow>
          (case temp_pdfs s' (temp_pdf_path (new_session_id e)) of
             None \<Rightarrow> Some (Inl (Http (HTTPException 500 (Failed_to_process_PDF err))), s')
           | Some pdf \<Rightarrow>
               (case fault e Unlink_pdf (new_session_id e) of
                  Some msg \<Rightarrow> Some (Inl (Other (Unavailable msg)), s')
                | None \<Rightarrow>
                    Some (Inl (Http (HTTPException 500 (Failed_to_process_PDF err))),
                          s'\<lparr>temp_pdfs := (temp_pdfs s')(temp_pdf_path (new_session_id e) := None)\<rparr>))))"
  using assms by (auto simp: upload_pdf_def Let_def)

lemma ingest_frame:
  assumes "ingest e s1 file sid = Some (Inl r, s2)"
  shows "temp_pdfs s2 = temp_pdfs s1 \<and> sessions s2 = sessions s1 \<and> printed s2 = printed s1"
  using assms
  by (auto simp: ingest_def split: sum.splits prod.splits if_splits option.splits)

lemma ingest_extraction_failure:
  "extract_text_blocks e (contents file) = Inl err \<Longrightarrow>
   ingest e s1 file sid = Some (Inl (Other err), s1)"
  by (simp add: ingest_def)

lemma ingest_embedding_failure:
  "extract_text_blocks e (contents file) = Inr (blocks, dims) \<Longrightarrow> blocks \<noteq> [] \<Longrightarrow>
   chunk_text_blocks blocks 500 50 = Some chunks \<Longrightarrow>
   get_embeddings e (map text_str chunks) = Inl err \<Longrightarrow>
   ingest e s1 file sid = Some (Inl (Other err), s1)"
  by (simp add: ingest_def)

lemma ingest_index_failure:
  assumes "extract_text_blocks e (contents file) = Inr (blocks, dims)" "blocks \<noteq> []"
    and "chunk_text_blocks blocks 500 50 = Some chunks"
    and "get_embeddings e (map text_str chunks) = Inr embeddings"
    and "fault e Create_collection sid \<noteq> None \<or> fault e Add_documents sid \<noteq> None \<or>
         length embeddings \<noteq> length chunks \<or> fault e Register_session sid \<noteq> None"
  shows "\<exists>err. ingest e s1 file sid =
     Some (Inl (Other err),
       if fault e Create_collection sid \<noteq> None then s1
       else s1\<lparr>collections := (collections s1)(collection_name sid \<mapsto>
               (if fault e Add_documents sid = None \<and> length embeddings = length chunks
                then new_records chunks embeddings else []))\<rparr>)"
  using assms
  by (auto simp: ingest_def create_collection_eq add_documents_eq
      split: sum.splits prod.splits if_splits option.splits)

lemma ingest_returns: "\<exists>r. ingest e s file sid = Some r"
proof -
  have ne: "chunk_text_blocks blocks 500 50 \<noteq> None" for blocks
    using chunk_text_blocks_concat[of 50 500 blocks] by auto
  show ?thesis
    by (auto simp: ingest_def create_collection_eq add_documents_eq ne
        split: sum.splits prod.splits option.splits)
qed

lemma lower_cv:
  "lower_char CHR ''C'' = CHR ''c''" "lower_char CHR ''V'' = CHR ''v''"
  "lower_char CHR ''.'' = CHR ''.''" "lower_char CHR ''P'' = CHR ''p''"
  "lower_char CHR ''D'' = CHR ''d''" "lower_char CHR ''F'' = CHR ''f''"
  by code_simp+

lemma chunk_skills:
  "chunk_text_blocks [\<lparr>text_str = ''Skills: Python'', page = 1, bbox = (1, 2, 3, 4)\<rparr>] 500 50 =
     Some [\<lparr>text_str = ''Skills: Python'', page = 1, bbox = (1, 2, 3, 4)\<rparr>]"
  by (simp add: chunk_text_blocks_def)

lemma upload_index_failure:
  "upload_pdf \<lparr>new_session_id = ''u1'', clock = 1704110400000000,
       extract_text_blocks = (\<lambda>c. Inr ([\<lparr>text_str = ''Skills: Python'', page = 1, bbox = (1, 2, 3, 4)\<rparr>], [(1, \<lparr>width = 612, height = 792\<rparr>)])),
       get_embeddings = (\<lambda>ts. Inr (map (\<lambda>t. [1, 0]) ts)),
       fault = (\<lambda>st sid. if st = Add_documents then Some ''down'' else None)\<rparr> \<lparr>collections = Map.empty, temp_pdfs = Map.empty, sessions = [], printed = []\<rparr> \<lparr>filename = ''CV.PDF'', content_type = ''application/pdf'', contents = ''%PDF''\<rparr> =
     Some (Inl (Http (HTTPException 500 (Failed_to_process_PDF (Unavailable ''down'')))),
           \<lparr>collections = [''session_u1'' \<mapsto> []], temp_pdfs = Map.empty,
            sessions = [], printed = []\<rparr>)"
  by (simp add: upload_pdf_def lower_cv endswith_def MAX_FILE_SIZE_def Let_def ingest_def
      chunk_skills create_collection_eq collection_name_def temp_pdf_path_def)

lemma upload_unlink_failure_keeps_file:
  "upload_pdf \<lparr>new_session_id = ''u1'', clock = 1704110400000000,
       extract_text_blocks = (\<lambda>c. Inr ([\<lparr>text_str = ''Skills: Python'', page = 1, bbox = (1, 2, 3, 4)\<rparr>], [(1, \<lparr>width = 612, height = 792\<rparr>)])),
       get_embeddings = (\<lambda>ts. Inr (map (\<lambda>t. [1, 0]) ts)),
       fault = (\<lambda>st sid. if st = Add_documents then Some ''down'' else if st = Unlink_pdf then Some ''busy'' else None)\<rparr> \<lparr>collections = Map.empty, temp_pdfs = Map.empty, sessions = [], printed = []\<rparr> \<lparr>filename = ''CV.PDF'', content_type = ''application/pdf'', contents = ''%PDF''\<rparr> =
     Some (Inl (Other (Unavailable ''busy'')),
           \<lparr>collections = [''session_u1'' \<mapsto> []],
            temp_pdfs = [''temp_pdfs/u1.pdf'' \<mapsto> ''%PDF''],
            sessions = [], printed = []\<rparr>)"
  by (simp add: upload_pdf_def lower_cv endswith_def MAX_FILE_SIZE_def Let_def ingest_def
      chunk_skills create_collection_eq collection_name_def temp_pdf_path_def)

lemma upload_empty_document_keeps_file:
  "upload_pdf \<lparr>new_session_id = ''u1'', clock = 1704110400000000,
       extract_text_blocks = (\<lambda>c. Inr ([], [(1, \<lparr>width = 612, height = 792\<rparr>)])),
       get_embeddings = (\<lambda>ts. Inr (map (\<lambda>t. [1, 0]) ts)),
       fault = (\<lambda>st sid. None)\<rparr> \<lparr>collections = Map.empty, temp_pdfs = Map.empty, sessions = [], printed = []\<rparr> \<lparr>filename = ''CV.PDF'', content_type = ''application/pdf'', contents = ''%PDF''\<rparr> =
     Some (Inl (Http (HTTPException 400 No_text_content_found)),
           \<lparr>collections = Map.empty, temp_pdfs = [''temp_pdfs/u1.pdf'' \<mapsto> ''%PDF''],
            sessions = [], printed = []\<rparr>)"
  by (simp add: upload_pdf_def lower_cv endswith_def MAX_FILE_SIZE_def Let_def ingest_def
      temp_pdf_path_def)

section \<open>Claims about the upload endpoint\<close>

text \<open>
  Claim C1, as amended. For every upload that passes validation and whose temporary
  file is written, if a later step raises an exception (the extraction fails, the
  embedding fails, the vector store fails in \<open>create_collection\<close> or \<open>add_documents\<close>,
  the embeddings do not match the chunks, or the registry fails) and the removal of
  the file does not fail itself, the error surfaces as status 500 after the temporary
  file has been removed; no other file and no registry row is changed. The index state
  of the session is left as the failing step found it: the vector store is unchanged
  when the failure comes before \<open>create_collection\<close> has run, and otherwise it holds
  the session's collection, empty when \<open>add_documents\<close> failed and with all records
  when the registry failed. (The rejection of a document without text is not covered.)
\<close>

theorem upload_failure_removes_temp_file:
  assumes "filename file \<noteq> []"
    and "endswith (map lower_char (filename file)) ''.pdf''"
    and "content_type file = [] \<or> content_type file = ''application/pdf''"
    and "length (contents file) \<le> MAX_FILE_SIZE"
    and "contents file \<noteq> []"
    and "fault e Write_pdf (new_session_id e) = None"
    and "fault e Unlink_pdf (new_session_id e) = None"
    and "(\<exists>err. extract_text_blocks e (contents file) = Inl err) \<or>
     (\<exists>blocks dims chunks.
        extract_text_blocks e (contents file) = Inr (blocks, dims) \<and> blocks \<noteq> [] \<and>
        chunk_text_blocks blocks 500 50 = Some chunks \<and>
        ((\<exists>err. get_embeddings e (map text_str chunks) = Inl err) \<or>
         (\<exists>embeddings. get_embeddings e (map text_str chunks) = Inr embeddings \<and>
            (fault e Create_collection (new_session_id e) \<noteq> None \<or>
             fault e Add_documents (new_session_id e) \<noteq> None \<or>
             length embeddings \<noteq> length chunks \<or>
             fault e Register_session (new_session_id e) \<noteq> None))))"
  shows "\<exists>err s'. upload_pdf e s file =
             Some (Inl (Http (HTTPException 500 (Failed_to_process_PDF err))), s') \<and>
           temp_pdfs s' (temp_pdf_path (new_session_id e)) = None \<and>
           (\<forall>p. p \<noteq> temp_pdf_path (new_session_id e) \<longrightarrow> temp_pdfs s' p = temp_pdfs s p) \<and>
           sessions s' = sessions s \<and>
           ((\<exists>err. extract_text_blocks e (contents file) = Inl err) \<or>
            (\<exists>blocks dims chunks err.
               extract_text_blocks e (contents file) = Inr (blocks, dims) \<and>
               chunk_text_blocks blocks 500 50 = Some chunks \<and>
               get_embeddings e (map text_str chunks) = Inl err) \<or>
            fault e Create_collection (new_session_id e) \<noteq> None \<longrightarrow>
            collections s' = collections s) \<and>
           (\<forall>blocks dims chunks embeddings.
               extract_text_blocks e (contents file) = Inr (blocks, dims) \<longrightarrow>
               chunk_text_blocks blocks 500 50 = Some chunks \<longrightarrow>
               get_embeddings e (map text_str chunks) = Inr embeddings \<longrightarrow>
               fault e Create_collection (new_session_id e) = None \<longrightarrow>
               collections s' =
                 (collections s)(collection_name (new_session_id e) \<mapsto>
                   (if fault e Add_documents (new_session_id e) = None \<and>
                       length embeddings = length chunks
                    then new_records chunks embeddings else [])))"
proof -
  let ?sid = "new_session_id e"
  let ?path = "temp_pdf_path ?sid"
  let ?s1 = "s\<lparr>temp_pdfs := (temp_pdfs s)(?path \<mapsto> contents file)\<rparr>"
  let ?A = "\<lambda>c. (\<exists>err. extract_text_blocks e (contents file) = Inl err) \<or>
            (\<exists>blocks dims chunks err.
               extract_text_blocks e (contents file) = Inr (blocks, dims) \<and>
               chunk_text_blocks blocks 500 50 = Some chunks \<and>
               get_embeddings e (map text_str chunks) = Inl err) \<or>
            fault e Create_collection ?sid \<noteq> None \<longrightarrow>
            c = collections s"
  let ?B = "\<lambda>c. \<forall>blocks dims chunks embeddings.
               extract_text_blocks e (contents file) = Inr (blocks, dims) \<longrightarrow>
               chunk_text_blocks blocks 500 50 = Some chunks \<longrightarrow>
               get_embeddings e (map text_str chunks) = Inr embeddings \<longrightarrow>
               fault e Create_collection ?sid = None \<longrightarrow>
               c = (collections s)(collection_name ?sid \<mapsto>
                   (if fault e Add_documents ?sid = None \<and> length embeddings = length chunks
                    then new_records chunks embeddings else []))"
  from assms(8) consider
      (ext) err where "extract_text_blocks e (contents file) = Inl err"
    | (emb) blocks dims chunks err where
        "extract_text_blocks e (contents file) = Inr (blocks, dims)" "blocks \<noteq> []"
        "chunk_text_blocks blocks 500 50 = Some chunks"
        "get_embeddings e (map text_str chunks) = Inl err"
    | (idx) blocks dims chunks embeddings where
        "extract_text_blocks e (contents file) = Inr (blocks, dims)" "blocks \<noteq> []"
        "chunk_text_blocks blocks 500 50 = Some chunks"
        "get_embeddings e (map text_str chunks) = Inr embeddings"
        "fault e Create_collection ?sid \<noteq> None \<or> fault e Add_documents ?sid \<noteq> None \<or>
         length embeddings \<noteq> length chunks \<or> fault e Register_session ?sid \<noteq> None"
    by blast
  then have "\<exists>err s2. ingest e ?s1 file ?sid = Some (Inl (Other err), s2) \<and>
               ?A (collections s2) \<and> ?B (collections s2)"
  proof cases
    case ext
    have "ingest e ?s1 file ?sid = Some (Inl (Other err), ?s1)"
      using ext by (rule ingest_extraction_failure)
    moreover have "?A (collections ?s1)" by simp
    moreover have "?B (collections ?s1)" using ext by simp
    ultimately show ?thesis by blast
  next
    case emb
    have "ingest e ?s1 file ?sid = Some (Inl (Other err), ?s1)"
      using emb by (rule ingest_embedding_failure)
    moreover have "?A (collections ?s1)" by simp
    moreover have "?B (collections ?s1)" using emb by simp
    ultimately show ?thesis by blast
  next
    case idx
    let ?s2 = "if fault e Create_collection ?sid \<noteq> None then ?s1
       else ?s1\<lparr>collections := (collections ?s1)(collection_name ?sid \<mapsto>
               (if fault e Add_documents ?sid = None \<and> length embeddings = length chunks
                then new_records chunks embeddings else []))\<rparr>"
    from ingest_index_failure[OF idx, of ?s1] obtain err where
      "ingest e ?s1 file ?sid = Some (Inl (Other err), ?s2)" by blast
    moreover have "?A (collections ?s2)" using idx(1,3,4) by auto
    moreover have "?B (collections ?s2)" using idx(1,3,4) by auto
    ultimately show ?thesis by blast
  qed
  then obtain err s2 where
    raised: "ingest e ?s1 file ?sid = Some (Inl (Other err), s2)"
    and A: "?A (collections s2)" and B: "?B (collections s2)" by blast
  from ingest_frame[OF raised] have frame:
    "temp_pdfs s2 = temp_pdfs ?s1" "sessions s2 = sessions ?s1" by simp_all
  let ?s' = "s2\<lparr>temp_pdfs := (temp_pdfs s2)(?path := None)\<rparr>"
  have exists: "temp_pdfs s2 ?path = Some (contents file)" using frame(1) by simp
  have "upload_pdf e s file =
          Some (Inl (Http (HTTPException 500 (Failed_to_process_PDF err))), ?s')"
    unfolding upload_after_write[OF assms(1-6)] raised using exists assms(7) by simp
  moreover have "temp_pdfs ?s' ?path = None" by simp
  moreover have "\<forall>p. p \<noteq> ?path \<longrightarrow> temp_pdfs ?s' p = temp_pdfs s p"
    using frame(1) by simp
  moreover have "sessions ?s' = sessions s" using frame(2) by simp
  moreover have "?A (collections ?s')" using A by simp
  moreover have "?B (collections ?s')" using B by simp
  ultimately show ?thesis by blast
qed

theorem upload_failure_removes_temp_file_witness:
  "filename \<lparr>filename = ''CV.PDF'', content_type = ''application/pdf'', contents = ''%PDF''\<rparr> \<noteq> [] \<and>
   endswith (map lower_char (filename \<lparr>filename = ''CV.PDF'', content_type = ''application/pdf'', contents = ''%PDF''\<rparr>)) ''.pdf'' \<and>
   length (contents \<lparr>filename = ''CV.PDF'', content_type = ''application/pdf'', contents = ''%PDF''\<rparr>) \<le> MAX_FILE_SIZE \<and>
   contents \<lparr>filename = ''CV.PDF'', content_type = ''application/pdf'', contents = ''%PDF''\<rparr> \<noteq> [] \<and>
   fault \<lparr>new_session_id = ''u1'', clock = 1704110400000000,
       extract_text_blocks = (\<lambda>c. Inr ([\<lparr>text_str = ''Skills: Python'', page = 1, bbox = (1, 2, 3, 4)\<rparr>], [(1, \<lparr>width = 612, height = 792\<rparr>)])),
       get_embeddings = (\<lambda>ts. Inr (map (\<lambda>t. [1, 0]) ts)),
       fault = (\<lambda>st sid. if st = Add_documents then Some ''down'' else None)\<rparr> Write_pdf (new_session_id \<lparr>new_session_id = ''u1'', clock = 1704110400000000,
       extract_text_blocks = (\<lambda>c. Inr ([\<lparr>text_str = ''Skills: Python'', page = 1, bbox = (1, 2, 3, 4)\<rparr>], [(1, \<lparr>width = 612, height = 792\<rparr>)])),
       get_embeddings = (\<lambda>ts. Inr (map (\<lambda>t. [1, 0]) ts)),
       fault = (\<lambda>st sid. if st = Add_documents then Some ''down'' else None)\<rparr>) = None \<and>
   fault \<lparr>new_session_id = ''u1'', clock = 1704110400000000,
       extract_text_blocks = (\<lambda>c. Inr ([\<lparr>text_str = ''Skills: Python'', page = 1, bbox = (1, 2, 3, 4)\<rparr>], [(1, \<lparr>width = 612, height = 792\<rparr>)])),
       get_embeddings = (\<lambda>ts. Inr (map (\<lambda>t. [1, 0]) ts)),
       fault = (\<lambda>st sid. if st = Add_documents then Some ''down'' else None)\<rparr> Unlink_pdf (new_session_id \<lparr>new_session_id = ''u1'', clock = 1704110400000000,
       extract_text_blocks = (\<lambda>c. Inr ([\<lparr>text_str = ''Skills: Python'', page = 1, bbox = (1, 2, 3, 4)\<rparr>], [(1, \<lparr>width = 612, height = 792\<rparr>)])),
       get_embeddings = (\<lambda>ts. Inr (map (\<lambda>t. [1, 0]) ts)),
       fault = (\<lambda>st sid. if st = Add_documents then Some ''down'' else None)\<rparr>) = None \<and>
   fault \<lparr>new_session_id = ''u1'', clock = 1704110400000000,
       extract_text_blocks = (\<lambda>c. Inr ([\<lparr>text_str = ''Skills: Python'', page = 1, bbox = (1, 2, 3, 4)\<rparr>], [(1, \<lparr>width = 612, height = 792\<rparr>)])),
       get_embeddings = (\<lambda>ts. Inr (map (\<lambda>t. [1, 0]) ts)),
       fault = (\<lambda>st sid. if st = Add_documents then Some ''down'' else None)\<rparr> Add_documents (new_session_id \<lparr>new_session_id = ''u1'', clock = 1704110400000000,
       extract_text_blocks = (\<lambda>c. Inr ([\<lparr>text_str = ''Skills: Python'', page = 1, bbox = (1, 2, 3, 4)\<rparr>], [(1, \<lparr>width = 612, height = 792\<rparr>)])),
       get_embeddings = (\<lambda>ts. Inr (map (\<lambda>t. [1, 0]) ts)),
       fault = (\<lambda>st sid. if st = Add_documents then Some ''down'' else None)\<rparr>) = Some ''down'' \<and>
   map_option fst (upload_pdf \<lparr>new_session_id = ''u1'', clock = 1704110400000000,
       extract_text_blocks = (\<lambda>c. Inr ([\<lparr>text_str = ''Skills: Python'', page = 1, bbox = (1, 2, 3, 4)\<rparr>], [(1, \<lparr>width = 612, height = 792\<rparr>)])),
       get_embeddings = (\<lambda>ts. Inr (map (\<lambda>t. [1, 0]) ts)),
       fault = (\<lambda>st sid. if st = Add_documents then Some ''down'' else None)\<rparr> \<lparr>collections = Map.empty, temp_pdfs = Map.empty, sessions = [], printed = []\<rparr> \<lparr>filename = ''CV.PDF'', content_type = ''application/pdf'', contents = ''%PDF''\<rparr>) =
     Some (Inl (Http (HTTPException 500 (Failed_to_process_PDF (Unavailable ''down''))))) \<and>
   (\<exists>err s'. upload_pdf \<lparr>new_session_id = ''u1'', clock = 1704110400000000,
       extract_text_blocks = (\<lambda>c. Inr ([\<lparr>text_str = ''Skills: Python'', page = 1, bbox = (1, 2, 3, 4)\<rparr>], [(1, \<lparr>width = 612, height = 792\<rparr>)])),
       get_embeddings = (\<lambda>ts. Inr (map (\<lambda>t. [1, 0]) ts)),
       fault = (\<lambda>st sid. if st = Add_documents then Some ''down'' else None)\<rparr> \<lparr>collections = Map.empty, temp_pdfs = Map.empty, sessions = [], printed = []\<rparr> \<lparr>filename = ''CV.PDF'', content_type = ''application/pdf'', contents = ''%PDF''\<rparr> =
        Some (Inl (Http (HTTPException 500 (Failed_to_process_PDF err))), s') \<and>
      temp_pdfs s' (temp_pdf_path (new_session_id \<lparr>new_session_id = ''u1'', clock = 1704110400000000,
       extract_text_blocks = (\<lambda>c. Inr ([\<lparr>text_str = ''Skills: Python'', page = 1, bbox = (1, 2, 3, 4)\<rparr>], [(1, \<lparr>width = 612, height = 792\<rparr>)])),
       get_embeddings = (\<lambda>ts. Inr (map (\<lambda>t. [1, 0]) ts)),
       fault = (\<lambda>st sid. if st = Add_documents then Some ''down'' else None)\<rparr>)) = None \<and>
      collections s' = (collections \<lparr>collections = Map.empty, temp_pdfs = Map.empty, sessions = [], printed = []\<rparr>)(collection_name (new_session_id \<lparr>new_session_id = ''u1'', clock = 1704110400000000,
       extract_text_blocks = (\<lambda>c. Inr ([\<lparr>text_str = ''Skills: Python'', page = 1, bbox = (1, 2, 3, 4)\<rparr>], [(1, \<lparr>width = 612, height = 792\<rparr>)])),
       get_embeddings = (\<lambda>ts. Inr (map (\<lambda>t. [1, 0]) ts)),
       fault = (\<lambda>st sid. if st = Add_documents then Some ''down'' else None)\<rparr>) \<mapsto> []))"
proof -
  let ?e = "\<lparr>new_session_id = ''u1'', clock = 1704110400000000,
       extract_text_blocks = (\<lambda>c. Inr ([\<lparr>text_str = ''Skills: Python'', page = 1, bbox = (1, 2, 3, 4)\<rparr>], [(1, \<lparr>width = 612, height = 792\<rparr>)])),
       get_embeddings = (\<lambda>ts. Inr (map (\<lambda>t. [1, 0]) ts)),
       fault = (\<lambda>st sid. if st = Add_documents then Some ''down'' else None)\<rparr>"
  let ?f = "\<lparr>filename = ''CV.PDF'', content_type = ''application/pdf'', contents = ''%PDF''\<rparr>"
  let ?s = "\<lparr>collections = Map.empty, temp_pdfs = Map.empty, sessions = [], printed = []\<rparr>"
  have h1: "filename ?f \<noteq> []" by simp
  have h2: "endswith (map lower_char (filename ?f)) ''.pdf''"
    by (simp add: lower_cv endswith_def)
  have h3: "content_type ?f = [] \<or> content_type ?f = ''application/pdf''" by simp
  have h4: "length (contents ?f) \<le> MAX_FILE_SIZE" by (simp add: MAX_FILE_SIZE_def)
  have h5: "contents ?f \<noteq> []" by simp
  have h6: "fault ?e Write_pdf (new_session_id ?e) = None" by simp
  have h7: "fault ?e Unlink_pdf (new_session_id ?e) = None" by simp
  have h8: "fault ?e Add_documents (new_session_id ?e) = Some ''down''" by simp
  have x1: "extract_text_blocks ?e (contents ?f) =
      Inr ([\<lparr>text_str = ''Skills: Python'', page = 1, bbox = (1, 2, 3, 4)\<rparr>], [(1, \<lparr>width = 612, height = 792\<rparr>)])" by simp
  have x2: "get_embeddings ?e (map text_str [\<lparr>text_str = ''Skills: Python'', page = 1, bbox = (1, 2, 3, 4)\<rparr>]) = Inr [[1, 0]]" by simp
  have x3: "fault ?e Create_collection (new_session_id ?e) = None" by simp
  have cause: "(\<exists>err. extract_text_blocks ?e (contents ?f) = Inl err) \<or>
     (\<exists>blocks dims chunks.
        extract_text_blocks ?e (contents ?f) = Inr (blocks, dims) \<and> blocks \<noteq> [] \<and>
        chunk_text_blocks blocks 500 50 = Some chunks \<and>
        ((\<exists>err. get_embeddings ?e (map text_str chunks) = Inl err) \<or>
         (\<exists>embeddings. get_embeddings ?e (map text_str chunks) = Inr embeddings \<and>
            (fault ?e Create_collection (new_session_id ?e) \<noteq> None \<or>
             fault ?e Add_documents (new_session_id ?e) \<noteq> None \<or>
             length embeddings \<noteq> length chunks \<or>
             fault ?e Register_session (new_session_id ?e) \<noteq> None))))"
    by (simp add: chunk_skills)
  have v: "map_option fst (upload_pdf ?e ?s ?f) =
     Some (Inl (Http (HTTPException 500 (Failed_to_process_PDF (Unavailable ''down'')))))"
    by (simp add: upload_index_failure)
  from upload_failure_removes_temp_file[OF h1 h2 h3 h4 h5 h6 h7 cause, of ?s]
  obtain err s' where
    up: "upload_pdf ?e ?s ?f =
           Some (Inl (Http (HTTPException 500 (Failed_to_process_PDF err))), s')"
    and gone: "temp_pdfs s' (temp_pdf_path (new_session_id ?e)) = None"
    and index: "\<forall>blocks dims chunks embeddings.
               extract_text_blocks ?e (contents ?f) = Inr (blocks, dims) \<longrightarrow>
               chunk_text_blocks blocks 500 50 = Some chunks \<longrightarrow>
               get_embeddings ?e (map text_str chunks) = Inr embeddings \<longrightarrow>
               fault ?e Create_collection (new_session_id ?e) = None \<longrightarrow>
               collections s' =
                 (collections ?s)(collection_name (new_session_id ?e) \<mapsto>
                   (if fault ?e Add_documents (new_session_id ?e) = None \<and>
                       length embeddings = length chunks
                    then new_records chunks embeddings else []))"
    by blast
  from index x1 chunk_skills x2 x3 have "collections s' =
      (collections ?s)(collection_name (new_session_id ?e) \<mapsto>
         (if fault ?e Add_documents (new_session_id ?e) = None \<and>
             length [[1, 0 :: real]] = length [\<lparr>text_str = ''Skills: Python'', page = 1, bbox = (1, 2, 3, 4)\<rparr>]
          then new_records [\<lparr>text_str = ''Skills: Python'', page = 1, bbox = (1, 2, 3, 4)\<rparr>] [[1, 0]] else []))"
    by blast
  then have left: "collections s' = (collections ?s)(collection_name (new_session_id ?e) \<mapsto> [])"
    by (simp only: h8) simp
  from up gone left have "\<exists>err s'. upload_pdf ?e ?s ?f =
        Some (Inl (Http (HTTPException 500 (Failed_to_process_PDF err))), s') \<and>
      temp_pdfs s' (temp_pdf_path (new_session_id ?e)) = None \<and>
      collections s' = (collections ?s)(collection_name (new_session_id ?e) \<mapsto> [])"
    by blast
  with h1 h2 h4 h5 h6 h7 h8 v show ?thesis by blast
qed

text \<open>
  The claim as stated also promises that the index state of the session is removed.
  \<open>upload_pdf\<close> has no step that deletes a collection: when \<open>add_documents\<close> fails
  after \<open>create_collection\<close>, the error surfaces with the new, empty collection of the
  session left in the vector store.
\<close>

theorem upload_failure_leaves_collection:
  "fault \<lparr>new_session_id = ''u1'', clock = 1704110400000000,
       extract_text_blocks = (\<lambda>c. Inr ([\<lparr>text_str = ''Skills: Python'', page = 1, bbox = (1, 2, 3, 4)\<rparr>], [(1, \<lparr>width = 612, height = 792\<rparr>)])),
       get_embeddings = (\<lambda>ts. Inr (map (\<lambda>t. [1, 0]) ts)),
       fault = (\<lambda>st sid. if st = Add_documents then Some ''down'' else None)\<rparr> Add_documents (new_session_id \<lparr>new_session_id = ''u1'', clock = 1704110400000000,
       extract_text_blocks = (\<lambda>c. Inr ([\<lparr>text_str = ''Skills: Python'', page = 1, bbox = (1, 2, 3, 4)\<rparr>], [(1, \<lparr>width = 612, height = 792\<rparr>)])),
       get_embeddings = (\<lambda>ts. Inr (map (\<lambda>t. [1, 0]) ts)),
       fault = (\<lambda>st sid. if st = Add_documents then Some ''down'' else None)\<rparr>) = Some ''down'' \<and>
   collections \<lparr>collections = Map.empty, temp_pdfs = Map.empty, sessions = [], printed = []\<rparr> (collection_name ''u1'') = None \<and>
   map_option fst (upload_pdf \<lparr>new_session_id = ''u1'', clock = 1704110400000000,
       extract_text_blocks = (\<lambda>c. Inr ([\<lparr>text_str = ''Skills: Python'', page = 1, bbox = (1, 2, 3, 4)\<rparr>], [(1, \<lparr>width = 612, height = 792\<rparr>)])),
       get_embeddings = (\<lambda>ts. Inr (map (\<lambda>t. [1, 0]) ts)),
       fault = (\<lambda>st sid. if st = Add_documents then Some ''down'' else None)\<rparr> \<lparr>collections = Map.empty, temp_pdfs = Map.empty, sessions = [], printed = []\<rparr> \<lparr>filename = ''CV.PDF'', content_type = ''application/pdf'', contents = ''%PDF''\<rparr>) =
     Some (Inl (Http (HTTPException 500 (Failed_to_process_PDF (Unavailable ''down''))))) \<and>
   collections (snd (the (upload_pdf \<lparr>new_session_id = ''u1'', clock = 1704110400000000,
       extract_text_blocks = (\<lambda>c. Inr ([\<lparr>text_str = ''Skills: Python'', page = 1, bbox = (1, 2, 3, 4)\<rparr>], [(1, \<lparr>width = 612, height = 792\<rparr>)])),
       get_embeddings = (\<lambda>ts. Inr (map (\<lambda>t. [1, 0]) ts)),
       fault = (\<lambda>st sid. if st = Add_documents then Some ''down'' else None)\<rparr> \<lparr>collections = Map.empty, temp_pdfs = Map.empty, sessions = [], printed = []\<rparr> \<lparr>filename = ''CV.PDF'', content_type = ''application/pdf'', contents = ''%PDF''\<rparr>))) (collection_name ''u1'') = Some []"
  by (simp add: upload_index_failure collection_name_def)

end
